theory Spec2Isabelle
  imports Complex_Main "HOL-Library.Monad_Syntax" "HOL-Library.AList" "HOL-Library.Log_Nat"
begin

section \<open>The Shaping wrapper of neurogym (wrappers/shaping.py)\<close>

text \<open>
  The wrapper is a Python class whose methods mutate the wrapper object and the wrapped
  environment. The model passes both explicitly: a record \<open>shaping\<close> for the wrapper, holding a
  record \<open>trial_env\<close> for the wrapped environment.

  Conventions of the model.
  \<^item> A Python exception is the result \<open>None\<close>; every method that can raise returns an option.
  \<^item> An attribute of the wrapped environment is an option field: \<open>None\<close> when the object has no
    such attribute. Reading it is a step of the option monad (an absent attribute raises
    AttributeError), assigning it stores \<open>Some\<close>.
  \<^item> Python's unbounded integers are \<open>int\<close>. Python's numbers (rewards, times, performances,
    thresholds) are rationals \<open>rat\<close>: every double is one. Comparisons and \<open>max\<close> are exact on
    doubles, and the sums and differences of times and rewards are taken exactly. The three
    computations whose result depends on how a double is rounded are not computed by the model
    but taken as parameters: \<open>int(short_dur*dt)\<close>, \<open>int(n*factor/dt)*dt\<close> and \<open>np.mean\<close>; the
    instance \<open>doubles\<close> below computes them with the rounding of doubles. The one value with no rational counterpart that the code can produce, the \<open>nan\<close> of
    \<open>np.mean([])\<close>, is the constructor \<open>NaN\<close>.
  \<^item> What shaping.py uses and does not define is collected in the record \<open>outside\<close>: the
    constructor of the base class, the methods \<open>_step\<close>, \<open>step\<close> and \<open>new_trial\<close> of the wrapped
    environment, and the three floating-point computations. The methods act on the whole
    environment record, including a component \<open>env_hidden\<close> for whatever else the environment
    keeps.
\<close>

subsection \<open>Data\<close>

type_synonym action = int

text \<open>A timing entry is a pair \<open>(dist, args)\<close>; \<open>args\<close> is a number for \<open>'constant'\<close> and a
  sequence of numbers for the other distributions.\<close>

datatype args = Scalar rat | Seq "rat list"

type_synonym dist = "string \<times> args"

text \<open>A Python dict keeps insertion order; \<open>timing\<close> is an association list.\<close>

type_synonym timing = "(string \<times> dist) list"

datatype npfloat = NaN | Val rat

text \<open>
  The value of the attribute \<open>sigma_dt\<close> is a plain Python number (\<open>PyNum\<close>), which has no
  method \<open>copy\<close>, or a numpy number (\<open>NpNum\<close>), which has one. The wrapper itself assigns
  both kinds: the literal \<open>0\<close>, and the copy it took at construction.
\<close>

datatype pynum = PyNum rat | NpNum rat

text \<open>The \<open>info\<close> dict: the wrapper reads and writes the keys \<open>'new_trial'\<close> and
  \<open>'performance'\<close> only; \<open>'performance'\<close> may be absent.\<close>

record info =
  info_new_trial :: bool
  info_performance :: "rat option"

record 'z trial_env =
  env_dt :: "rat option"
  env_tmax :: "rat option"
  env_t :: "rat option"
  env_t_ind :: "int option"
  env_num_tr :: "int option"
  env_timing :: "timing option"
  env_sigma_dt :: "pynum option"
  env_rewards :: "(string \<times> rat) list option"
  env_performance :: "rat option"
  env_r_tmax :: "rat option"
  env_hidden :: 'z

text \<open>
  \<open>base_init e\<close> is true when \<open>super().__init__(env)\<close> accepts the environment.
  \<open>fl_int_mul x y\<close> is \<open>int(x*y)\<close>, \<open>fl_quantize n sd a0 d\<close> is \<open>int(n*(sd/a0)/d)*d\<close> for
  non-zero \<open>a0\<close> and \<open>d\<close>, and \<open>fl_mean xs\<close> is \<open>np.mean(xs)\<close> for a non-empty \<open>xs\<close>, each as the
  interpreter computes it on doubles.
\<close>

record ('o, 'z) outside =
  base_init :: "'z trial_env \<Rightarrow> bool"
  env__step :: "action \<Rightarrow> 'z trial_env \<Rightarrow> ('o \<times> rat \<times> bool \<times> info) \<times> 'z trial_env"
  env_step :: "action \<Rightarrow> 'z trial_env \<Rightarrow> ('o \<times> rat \<times> bool \<times> info) \<times> 'z trial_env"
  env_new_trial :: "'z trial_env \<Rightarrow> 'z trial_env"
  fl_int_mul :: "rat \<Rightarrow> rat \<Rightarrow> int"
  fl_quantize :: "rat \<Rightarrow> rat \<Rightarrow> rat \<Rightarrow> rat \<Rightarrow> rat"
  fl_mean :: "rat list \<Rightarrow> rat"

text \<open>The attributes of \<open>self\<close>, in the order \<open>__init__\<close> assigns them. \<open>change_periods\<close> is
  first assigned by \<open>new_trial\<close>, which never reads it before.\<close>

record 'z shaping =
  env :: "'z trial_env"
  curr_ph :: int
  curr_perf :: npfloat
  perf_window :: int
  goal_perf :: "rat list"
  mov_window :: "rat list"
  counter :: int
  self_action :: action
  prev_act :: action
  max_num_reps :: int
  first_choice :: bool
  performance :: rat
  short :: bool
  variable :: bool
  short_dur :: int
  ori_periods :: timing
  sigma_dt_ori :: rat
  change_periods :: "string list"

subsection \<open>Python primitives\<close>

text \<open>\<open>xs[i]\<close>: a negative index counts from the end, an index out of range raises.\<close>

definition py_index :: "'a list \<Rightarrow> int \<Rightarrow> 'a option" where
  "py_index xs i =
     (if 0 \<le> i \<and> i < int (length xs) then Some (xs ! nat i)
      else if - int (length xs) \<le> i \<and> i < 0 then Some (xs ! nat (int (length xs) + i))
      else None)"

text \<open>\<open>np.mean\<close> of the empty list is \<open>nan\<close>, and \<open>nan >= g\<close> is false.\<close>

definition np_mean :: "('o, 'z) outside \<Rightarrow> rat list \<Rightarrow> npfloat" where
  "np_mean w xs = (if xs = [] then NaN else Val (fl_mean w xs))"

fun np_ge :: "npfloat \<Rightarrow> rat \<Rightarrow> bool" where
  "np_ge NaN g = False"
| "np_ge (Val x) g = (g \<le> x)"

text \<open>\<open>x.copy()\<close> on a number: a numpy number returns its value, a plain Python number has no
  such method.\<close>

fun np_copy :: "pynum \<Rightarrow> rat option" where
  "np_copy (PyNum x) = None"
| "np_copy (NpNum x) = Some x"

subsection \<open>Construction\<close>

text \<open>
  \<open>__init__(self, env, init_ph=0, max_num_reps=3, short_dur=2, th=0.8, perf_w=1000)\<close>.
  The constructor of the wrapper itself reads three attributes of the environment: \<open>dt\<close>,
  \<open>timing\<close> and \<open>sigma_dt\<close>. Line 43 calls \<open>self.env.sigma_dt.copy()\<close>, which raises
  AttributeError when \<open>sigma_dt\<close> is a plain Python number. The attribute \<open>timing\<close>, when
  present, is a dict by its type (the code calls its \<open>copy\<close>, \<open>keys\<close> and \<open>items\<close>), and \<open>dt\<close> is
  a number.
\<close>

definition Shaping_init ::
  "('o, 'z) outside \<Rightarrow> 'z trial_env \<Rightarrow> int \<Rightarrow> int \<Rightarrow> rat \<Rightarrow> rat \<Rightarrow> int \<Rightarrow> 'z shaping option"
where
  "Shaping_init w e init_ph max_reps short_d th perf_w =
     (if \<not> base_init w e then None
      else do {
        d \<leftarrow> env_dt e;
        tm \<leftarrow> env_timing e;
        sg \<leftarrow> env_sigma_dt e \<bind> np_copy;
        Some \<lparr> env = e, curr_ph = init_ph, curr_perf = Val 0, perf_window = perf_w,
               goal_perf = replicate 5 th, mov_window = [], counter = 0, self_action = 0,
               prev_act = 0, max_num_reps = max_reps, first_choice = True, performance = 0,
               short = False, variable = True, short_dur = fl_int_mul w short_d d,
               ori_periods = tm, sigma_dt_ori = sg, change_periods = [] \<rparr>
      })"

subsection \<open>count and set\_phase\<close>

definition count :: "action \<Rightarrow> 'z shaping \<Rightarrow> 'z shaping" where
  "count a s =
     (if a \<noteq> 0 then
        (if a = prev_act s then s\<lparr>counter := counter s + 1\<rparr>
         else s\<lparr>counter := 1, prev_act := a\<rparr>)
      else s)"

text \<open>In the full-window branch the code appends, pops the first entry and takes the mean;
  the list after both is \<open>tl (mov_window @ [performance])\<close>.\<close>

definition set_phase :: "('o, 'z) outside \<Rightarrow> 'z shaping \<Rightarrow> 'z shaping option" where
  "set_phase w s =
     (if curr_ph s < 5 then
        (if perf_window s \<le> int (length (mov_window s)) then
           (let win = tl (mov_window s @ [performance s]);
                s1 = s\<lparr>mov_window := win, curr_perf := np_mean w win\<rparr>
            in do {
              g \<leftarrow> py_index (goal_perf s1) (curr_ph s1);
              Some (if np_ge (curr_perf s1) g
                    then s1\<lparr>curr_ph := curr_ph s1 + 1, mov_window := []\<rparr>
                    else s1)
            })
         else Some (s\<lparr>mov_window := mov_window s @ [performance s]\<rparr>))
      else Some s)"

subsection \<open>new\_trial\<close>

text \<open>
  Modelled from the spec: \<open>build_timing_fns\<close> is a method of the wrapped environment's base
  class, in a file of the repository that is not under src/. The spec says that the timing
  computed for the phase is installed into the wrapped environment as its active timing.
\<close>

definition build_timing_fns :: "timing \<Rightarrow> 'z trial_env \<Rightarrow> 'z trial_env" where
  "build_timing_fns tm e = e\<lparr>env_timing := Some tm\<rparr>"

text \<open>The loop of the phases below 2 over \<open>ori_periods.items()\<close>.\<close>

fun force_constant :: "string list \<Rightarrow> int \<Rightarrow> timing \<Rightarrow> timing \<Rightarrow> timing" where
  "force_constant cp sd [] tm = tm"
| "force_constant cp sd ((key, val) # rest) tm =
     force_constant cp sd rest
       (if key \<in> set cp then AList.update key (''constant'', Scalar (of_int sd)) tm else tm)"

text \<open>
  \<open>factor = short_dur/args[0]\<close> and \<open>[int(n*factor/dt)*dt for n in args]\<close>. A scalar \<open>args\<close>
  cannot be indexed, an empty one has no first entry, and a zero first entry or a zero \<open>dt\<close>
  divides by zero.
\<close>

definition scaled_args ::
  "('o, 'z) outside \<Rightarrow> int \<Rightarrow> 'z trial_env \<Rightarrow> args \<Rightarrow> rat list option" where
  "scaled_args w sd e a =
     (case a of
        Scalar x \<Rightarrow> None
      | Seq [] \<Rightarrow> None
      | Seq (a0 # as) \<Rightarrow>
          (if a0 = 0 then None
           else those (map (\<lambda>n. do {
                   d \<leftarrow> env_dt e;
                   if d = 0 then None
                   else Some (fl_quantize w n (of_int sd) a0 d)
                 }) (a0 # as))))"

text \<open>The loop of the phases 2 and 3 over \<open>ori_periods.items()\<close>.\<close>

fun shorten_variable ::
  "('o, 'z) outside \<Rightarrow> string list \<Rightarrow> int \<Rightarrow> 'z trial_env \<Rightarrow> timing \<Rightarrow> timing \<Rightarrow> timing option"
where
  "shorten_variable w cp sd e [] tm = Some tm"
| "shorten_variable w cp sd e ((key, (dname, a)) # rest) tm =
     (if key \<in> set cp then
        (if dname \<noteq> ''constant'' then do {
           xs \<leftarrow> scaled_args w sd e a;
           shorten_variable w cp sd e rest (AList.update key (dname, Seq xs) tm)
         }
         else shorten_variable w cp sd e rest
                (AList.update key (''constant'', Scalar (of_int sd)) tm))
      else shorten_variable w cp sd e rest tm)"

text \<open>Lines 70 to 78: the phase bookkeeping and the mutations of the wrapped environment
  that precede the timing block.\<close>

definition new_trial_reset :: "('o, 'z) outside \<Rightarrow> 'z shaping \<Rightarrow> 'z shaping option" where
  "new_trial_reset w s = do {
     s1 \<leftarrow> set_phase w s;
     let s2 = s1\<lparr>first_choice := True, performance := 0,
                 change_periods := butlast (map fst (ori_periods s1))\<rparr>;
     let e1 = (env s2)\<lparr>env_performance := Some 0, env_t := Some 0, env_t_ind := Some 0\<rparr>;
     n \<leftarrow> env_num_tr e1;
     Some (s2\<lparr>env := e1\<lparr>env_num_tr := Some (n + 1)\<rparr>\<rparr>)
   }"

text \<open>Lines 80 to 122: the timing block, by phase.\<close>

definition new_trial_timing :: "('o, 'z) outside \<Rightarrow> 'z shaping \<Rightarrow> 'z shaping option" where
  "new_trial_timing w s =
     (if curr_ph s < 2 then
        (let e1 = (env s)\<lparr>env_sigma_dt := Some (PyNum 0)\<rparr> in do {
           tm \<leftarrow> env_timing e1;
           let (s1, tm1) =
             (if \<not> short s
              then (s\<lparr>short := True, variable := False\<rparr>,
                    force_constant (change_periods s) (short_dur s) (ori_periods s) tm)
              else (s, tm));
           Some (s1\<lparr>env := build_timing_fns tm1 e1\<rparr>)
         })
      else if 2 \<le> curr_ph s \<and> curr_ph s < 4 then do {
        tm \<leftarrow> env_timing (env s);
        (s1, tm1) \<leftarrow>
          (if \<not> short s \<or> \<not> variable s
           then do {
             tm' \<leftarrow> shorten_variable w (change_periods s) (short_dur s) (env s) (ori_periods s) tm;
             Some (s\<lparr>short := True, variable := True\<rparr>, tm')
           }
           else Some (s, tm));
        let e1 = build_timing_fns tm1 (env s1);
        Some (s1\<lparr>env := (if curr_ph s = 2 then e1\<lparr>env_sigma_dt := Some (PyNum 0)\<rparr>
                          else if curr_ph s = 3 then e1\<lparr>env_sigma_dt := Some (NpNum (sigma_dt_ori s))\<rparr>
                          else e1)\<rparr>)
      }
      else
        (let e1 = (env s)\<lparr>env_sigma_dt := Some (NpNum (sigma_dt_ori s))\<rparr> in do {
           tm \<leftarrow> env_timing e1;
           Some (s\<lparr>env := build_timing_fns (ori_periods s) e1\<rparr>)
         }))"

text \<open>Everything \<open>new_trial\<close> does before line 124.\<close>

definition new_trial_pre :: "('o, 'z) outside \<Rightarrow> 'z shaping \<Rightarrow> 'z shaping option" where
  "new_trial_pre w s = do { s1 \<leftarrow> new_trial_reset w s; new_trial_timing w s1 }"

text \<open>Line 124 delegates to the wrapped environment's own \<open>new_trial\<close>.\<close>

definition new_trial :: "('o, 'z) outside \<Rightarrow> 'z shaping \<Rightarrow> 'z shaping option" where
  "new_trial w s = do {
     s1 \<leftarrow> new_trial_pre w s;
     Some (s1\<lparr>env := env_new_trial w (env s1)\<rparr>)
   }"

subsection \<open>step\<close>

text \<open>Lines 133 to 149: the reward shaping of phases 0 and 1 at a trial boundary reported by
  the wrapped environment.\<close>

definition shape_boundary ::
  "action \<Rightarrow> rat \<Rightarrow> info \<Rightarrow> 'z shaping \<Rightarrow> (rat \<times> info \<times> 'z shaping) option" where
  "shape_boundary a reward nfo s =
     (if curr_ph s = 0 then
        (let s1 = count a s in
         if max_num_reps s1 < counter s1 then Some (0, nfo, s1\<lparr>performance := 0\<rparr>)
         else do {
           rw \<leftarrow> env_rewards (env s1);
           c \<leftarrow> map_of rw ''correct'';
           Some (c, nfo, s1\<lparr>performance := 1\<rparr>)
         })
      else if curr_ph s = 1 then do {
        p \<leftarrow> env_performance (env s);
        let (reward1, nfo1) =
          (if p = 0 then (0, nfo\<lparr>info_new_trial := False\<rparr>) else (reward, nfo));
        if first_choice s then do {
          p1 \<leftarrow> env_performance (env s);
          Some (reward1, nfo1, s\<lparr>performance := p1, first_choice := False\<rparr>)
        }
        else Some (reward1, nfo1, s)
      }
      else Some (reward, nfo, s))"

text \<open>Lines 151 to 155: the forced boundary when the trial has used up its time.\<close>

definition shape_timeout :: "rat \<Rightarrow> info \<Rightarrow> 'z shaping \<Rightarrow> (rat \<times> info) option" where
  "shape_timeout reward nfo s = do {
     tv \<leftarrow> env_t (env s);
     tm \<leftarrow> env_tmax (env s);
     d \<leftarrow> env_dt (env s);
     if tm - d < tv \<and> \<not> info_new_trial nfo then do {
       r \<leftarrow> env_r_tmax (env s);
       Some (reward + r, nfo\<lparr>info_new_trial := True, info_performance := Some (performance s)\<rparr>)
     }
     else Some (reward, nfo)
   }"

definition step ::
  "('o, 'z) outside \<Rightarrow> action \<Rightarrow> 'z shaping \<Rightarrow> (('o \<times> rat \<times> bool \<times> info) \<times> 'z shaping) option"
where
  "step w a s =
     (if curr_ph s < 2 then
        (case env__step w a (env s) of ((obs, reward0, done, nfo0), e0) \<Rightarrow> do {
           tv \<leftarrow> env_t e0;
           d \<leftarrow> env_dt e0;
           let e1 = e0\<lparr>env_t := Some (tv + d)\<rparr>;
           k \<leftarrow> env_t_ind e1;
           let s1 = s\<lparr>env := e1\<lparr>env_t_ind := Some (k + 1)\<rparr>\<rparr>;
           (reward1, nfo1, s2) \<leftarrow>
             (if info_new_trial nfo0 then shape_boundary a (max reward0 0) nfo0 s1
              else Some (max reward0 0, nfo0, s1));
           (reward2, nfo2) \<leftarrow> shape_timeout reward1 nfo1 s2;
           if info_new_trial nfo2 then do {
             s3 \<leftarrow> new_trial w s2;
             Some ((obs, reward2, done, nfo2\<lparr>info_performance := Some (performance s2)\<rparr>), s3)
           }
           else Some ((obs, reward2, done, nfo2), s2)
         })
      else
        (case env_step w a (env s) of ((obs, reward0, done, nfo0), e0) \<Rightarrow>
           (let reward1 = (if 2 \<le> curr_ph s \<and> curr_ph s < 5 then max reward0 0 else reward0);
                s1 = s\<lparr>env := e0\<rparr>
            in if info_new_trial nfo0 then do {
                 p \<leftarrow> info_performance nfo0;
                 s2 \<leftarrow> new_trial w (s1\<lparr>performance := p\<rparr>);
                 Some ((obs, reward1, done, nfo0), s2)
               }
               else Some ((obs, reward1, done, nfo0), s1))))"

subsection \<open>Sequences of calls\<close>

datatype call = Step action | NewTrial

fun run_call :: "('o, 'z) outside \<Rightarrow> call \<Rightarrow> 'z shaping \<Rightarrow> 'z shaping option" where
  "run_call w (Step a) s = map_option snd (step w a s)"
| "run_call w NewTrial s = new_trial w s"

fun run_calls :: "('o, 'z) outside \<Rightarrow> call list \<Rightarrow> 'z shaping \<Rightarrow> 'z shaping option" where
  "run_calls w [] s = Some s"
| "run_calls w (c # cs) s = do { s1 \<leftarrow> run_call w c s; run_calls w cs s1 }"

subsection \<open>What the wrapped environment returned\<close>

text \<open>The call of line 128 (\<open>_step\<close>, phases below 2) or of line 161 (\<open>step\<close>): its result
  tuple and the environment it leaves.\<close>

definition base_result :: "('o, 'z) outside \<Rightarrow> action \<Rightarrow> 'z shaping \<Rightarrow> 'o \<times> rat \<times> bool \<times> info" where
  "base_result w a s =
     fst (if curr_ph s < 2 then env__step w a (env s) else env_step w a (env s))"

definition base_env :: "('o, 'z) outside \<Rightarrow> action \<Rightarrow> 'z shaping \<Rightarrow> 'z trial_env" where
  "base_env w a s =
     snd (if curr_ph s < 2 then env__step w a (env s) else env_step w a (env s))"

text \<open>The components of a result tuple \<open>(obs, reward, done, info)\<close>.\<close>

definition obs_of :: "'o \<times> rat \<times> bool \<times> info \<Rightarrow> 'o" where
  "obs_of res = fst res"

definition reward_of :: "'o \<times> rat \<times> bool \<times> info \<Rightarrow> rat" where
  "reward_of res = fst (snd res)"

definition done_of :: "'o \<times> rat \<times> bool \<times> info \<Rightarrow> bool" where
  "done_of res = fst (snd (snd res))"

definition info_of :: "'o \<times> rat \<times> bool \<times> info \<Rightarrow> info" where
  "info_of res = snd (snd (snd res))"

subsection \<open>A scripted environment\<close>

text \<open>
  A concrete instance of everything outside shaping.py, for evaluating the model. The wrapped
  environment plays a script, one entry \<open>(reward, new_trial, performance)\<close> per step: it
  returns the reward and the flag and stores the performance in its attribute. Its \<open>step\<close>
  also reports the performance in \<open>info\<close>. The floating-point computations are the exact ones.
\<close>

type_synonym script = "(rat \<times> bool \<times> rat) list"

definition scripted__step ::
  "action \<Rightarrow> script trial_env \<Rightarrow> (unit \<times> rat \<times> bool \<times> info) \<times> script trial_env" where
  "scripted__step a e =
     (case env_hidden e of
        [] \<Rightarrow> (((), 0, False, \<lparr>info_new_trial = False, info_performance = None\<rparr>), e)
      | (r, b, p) # rest \<Rightarrow>
          (((), r, False, \<lparr>info_new_trial = b, info_performance = None\<rparr>),
           e\<lparr>env_performance := Some p, env_hidden := rest\<rparr>))"

definition scripted_step ::
  "action \<Rightarrow> script trial_env \<Rightarrow> (unit \<times> rat \<times> bool \<times> info) \<times> script trial_env" where
  "scripted_step a e =
     (case env_hidden e of
        [] \<Rightarrow> (((), 0, False, \<lparr>info_new_trial = False, info_performance = None\<rparr>), e)
      | (r, b, p) # rest \<Rightarrow>
          (((), r, False, \<lparr>info_new_trial = b, info_performance = Some p\<rparr>),
           e\<lparr>env_performance := Some p, env_hidden := rest\<rparr>))"

definition trunc :: "rat \<Rightarrow> int" where
  "trunc x = (if 0 \<le> x then \<lfloor>x\<rfloor> else \<lceil>x\<rceil>)"

definition scripted :: "(unit, script) outside" where
  "scripted =
     \<lparr> base_init = (\<lambda>e. True),
       env__step = scripted__step,
       env_step = scripted_step,
       env_new_trial = (\<lambda>e. e),
       fl_int_mul = (\<lambda>x y. trunc (x * y)),
       fl_quantize = (\<lambda>n sd a0 d. of_int (trunc (n * (sd / a0) / d)) * d),
       fl_mean = (\<lambda>xs. sum_list xs / of_nat (length xs)) \<rparr>"

definition scripted_env :: "script \<Rightarrow> script trial_env" where
  "scripted_env sc =
     \<lparr> env_dt = Some 100, env_tmax = Some 10000, env_t = Some 0, env_t_ind = Some 0,
       env_num_tr = Some 0,
       env_timing = Some [(''fixation'', (''constant'', Scalar 500)),
                          (''stimulus'', (''uniform'', Seq [600, 1200])),
                          (''decision'', (''constant'', Scalar 300))],
       env_sigma_dt = Some (NpNum (1 / 2)),
       env_rewards = Some [(''correct'', 1), (''fail'', 0)],
       env_performance = Some 0, env_r_tmax = Some 0, env_hidden = sc \<rparr>"

text \<open>The wrapper constructed around the scripted environment, with \<open>max_num_reps=3\<close>,
  \<open>short_dur=2\<close> and \<open>th=0.8\<close>.\<close>

definition start :: "int \<Rightarrow> int \<Rightarrow> script \<Rightarrow> script shaping" where
  "start ph pw sc = the (Shaping_init scripted (scripted_env sc) ph 3 2 (4 / 5) pw)"


subsection \<open>The arithmetic of doubles\<close>

text \<open>
  A second instance of the floating-point computations, which rounds as IEEE 754 binary64
  does: every operation returns the double nearest to the exact result, ties to the even
  significand. A positive \<open>x\<close> lies in \<open>[2^e, 2^(e+1))\<close> for \<open>e = binary_exponent x\<close>, where the
  doubles are the multiples of \<open>2^(e-52)\<close>. Overflow and subnormal numbers are left out: the
  numbers of a timing are far from both.
\<close>

definition pow2 :: "int \<Rightarrow> rat" where
  "pow2 k = (if 0 \<le> k then 2 ^ nat k else 1 / 2 ^ nat (- k))"

definition round_half_even :: "rat \<Rightarrow> int" where
  "round_half_even m =
     (let f = \<lfloor>m\<rfloor>; r = m - of_int f
      in if r < 1 / 2 then f else if 1 / 2 < r then f + 1 else if even f then f else f + 1)"

definition binary_exponent :: "rat \<Rightarrow> int" where
  "binary_exponent x =
     (case quotient_of x of (p, q) \<Rightarrow>
        (let e0 = bitlen p - bitlen q in if pow2 e0 \<le> x then e0 else e0 - 1))"

definition fl_round :: "rat \<Rightarrow> rat" where
  "fl_round x =
     (if x = 0 then 0
      else (let ulp = pow2 (binary_exponent \<bar>x\<bar> - 52)
            in sgn x * of_int (round_half_even (\<bar>x\<bar> / ulp)) * ulp))"

text \<open>The product and the quotient of two doubles, as \<open>*\<close> and \<open>/\<close> return them.\<close>

definition fl_mul :: "rat \<Rightarrow> rat \<Rightarrow> rat" where
  "fl_mul x y = fl_round (x * y)"

definition fl_div :: "rat \<Rightarrow> rat \<Rightarrow> rat" where
  "fl_div x y = fl_round (x / y)"

text \<open>
  The scripted environment with the computations of lines 40, 106 and 62 done on doubles:
  \<open>int(x*y)\<close>, \<open>int(n*(sd/a0)/d)*d\<close> with \<open>factor = sd/a0\<close> rounded first, as line 104 assigns
  it, and the mean as the sum divided by the length.
\<close>

definition doubles :: "(unit, script) outside" where
  "doubles =
     scripted
       \<lparr> fl_int_mul := (\<lambda>x y. trunc (fl_mul x y)),
         fl_quantize := (\<lambda>n sd a0 d. fl_mul (of_int (trunc (fl_div (fl_mul n (fl_div sd a0)) d))) d),
         fl_mean := (\<lambda>xs. fl_div (sum_list xs) (of_nat (length xs))) \<rparr>"

text \<open>The scripted environment with a stimulus period of parameters 4900 and 9800.\<close>

definition long_stimulus_env :: "script trial_env" where
  "long_stimulus_env =
     (scripted_env [])
       \<lparr> env_timing := Some [(''fixation'', (''constant'', Scalar 500)),
                             (''stimulus'', (''uniform'', Seq [4900, 9800])),
                             (''decision'', (''constant'', Scalar 300))] \<rparr>"

subsection \<open>Notions used to state the properties\<close>

text \<open>\<open>self.env.rewards['correct']\<close>.\<close>

definition correct_reward :: "'z trial_env \<Rightarrow> rat option" where
  "correct_reward e = env_rewards e \<bind> (\<lambda>rw. map_of rw ''correct'')"

text \<open>The streak as the claim words it, a count that restarts whenever the action changes:
  the number of times the last action of a sequence has been repeated at its end.\<close>

definition streak :: "action list \<Rightarrow> nat" where
  "streak xs = length (takeWhile (\<lambda>x. x = last xs) (rev xs))"

text \<open>The rolling window holds at most \<open>pw\<close> entries, \<open>pw\<close> being the configured size.\<close>

definition window_ok :: "'z shaping \<Rightarrow> int \<Rightarrow> bool" where
  "window_ok s pw \<longleftrightarrow> perf_window s = pw \<and> int (length (mov_window s)) \<le> pw"

text \<open>The active timing has the periods of the original one, and every period but the last
  is the constant distribution of duration \<open>short_dur\<close>.\<close>

definition forced_short :: "'z shaping \<Rightarrow> bool" where
  "forced_short s \<longleftrightarrow>
     (case env_timing (env s) of
        None \<Rightarrow> False
      | Some tm \<Rightarrow> map fst tm = map fst (ori_periods s)
          \<and> (\<forall>p \<in> set (butlast tm). snd p = (''constant'', Scalar (of_int (short_dur s)))))"

text \<open>What holds of the timing between calls: the original periods have distinct names, as
  the keys of a dict do, and below phase 2 the active timing has the same periods and, once
  \<open>short\<close> is set, is the forced one.\<close>

definition timing_inv :: "'z shaping \<Rightarrow> bool" where
  "timing_inv s \<longleftrightarrow>
     distinct (map fst (ori_periods s))
     \<and> (curr_ph s < 2 \<longrightarrow>
          (case env_timing (env s) of
             None \<Rightarrow> False
           | Some tm \<Rightarrow> map fst tm = map fst (ori_periods s))
          \<and> (short s \<longrightarrow> forced_short s))"

section \<open>Properties\<close>

subsection \<open>The phase\<close>

lemma set_phase_curr_ph:
  assumes "set_phase w s = Some s'"
  shows "curr_ph s \<le> curr_ph s' \<and> (curr_ph s \<le> 5 \<longrightarrow> curr_ph s' \<le> 5)"
  using assms
  by (auto simp: set_phase_def Let_def bind_eq_Some_conv split: if_splits)

lemma set_phase_at_5: "5 \<le> curr_ph s \<Longrightarrow> set_phase w s = Some s"
  by (simp add: set_phase_def)

lemma new_trial_reset_curr_ph:
  assumes "new_trial_reset w s = Some s'"
  shows "curr_ph s \<le> curr_ph s' \<and> (curr_ph s \<le> 5 \<longrightarrow> curr_ph s' \<le> 5)"
  using assms set_phase_curr_ph
  by (fastforce simp: new_trial_reset_def Let_def bind_eq_Some_conv)

lemma new_trial_timing_curr_ph:
  assumes "new_trial_timing w s = Some s'"
  shows "curr_ph s' = curr_ph s"
  using assms
  by (auto simp: new_trial_timing_def Let_def bind_eq_Some_conv split: if_splits prod.splits)

lemma new_trial_curr_ph:
  assumes "new_trial w s = Some s'"
  shows "curr_ph s \<le> curr_ph s' \<and> (curr_ph s \<le> 5 \<longrightarrow> curr_ph s' \<le> 5)"
  using assms new_trial_reset_curr_ph new_trial_timing_curr_ph
  by (fastforce simp: new_trial_def new_trial_pre_def bind_eq_Some_conv)

lemma count_curr_ph: "curr_ph (count a s) = curr_ph s"
  by (simp add: count_def)

lemma shape_boundary_curr_ph:
  assumes "shape_boundary a r i s = Some (r', i', s')"
  shows "curr_ph s' = curr_ph s"
  using assms
  by (auto simp: shape_boundary_def Let_def bind_eq_Some_conv count_curr_ph
           split: if_splits prod.splits)

lemma step_curr_ph:
  assumes "step w a s = Some (res, s')"
  shows "curr_ph s \<le> curr_ph s' \<and> (curr_ph s \<le> 5 \<longrightarrow> curr_ph s' \<le> 5)"
proof (cases "curr_ph s < 2")
  case True
  obtain ob r0 dn i0 e0 where b: "env__step w a (env s) = ((ob, r0, dn, i0), e0)"
    by (metis prod_cases4 surj_pair)
  from assms True b show ?thesis
    apply (simp add: step_def Let_def bind_eq_Some_conv split: if_splits prod.splits)
    apply (auto dest!: shape_boundary_curr_ph new_trial_curr_ph)
    done
next
  case False
  obtain ob r0 dn i0 e0 where b: "env_step w a (env s) = ((ob, r0, dn, i0), e0)"
    by (metis prod_cases4 surj_pair)
  from assms False b show ?thesis
    apply (simp add: step_def Let_def bind_eq_Some_conv split: if_splits prod.splits)
    apply (auto dest!: new_trial_curr_ph)
    done
qed

lemma run_call_curr_ph:
  assumes "run_call w c s = Some s'"
  shows "curr_ph s \<le> curr_ph s' \<and> (curr_ph s \<le> 5 \<longrightarrow> curr_ph s' \<le> 5)"
proof (cases c)
  case (Step a)
  with assms obtain res where "step w a s = Some (res, s')"
    by auto
  then show ?thesis by (rule step_curr_ph)
next
  case NewTrial
  with assms show ?thesis by (simp add: new_trial_curr_ph)
qed

lemma run_calls_curr_ph:
  "run_calls w cs s = Some s' \<Longrightarrow>
   curr_ph s \<le> curr_ph s' \<and> (curr_ph s \<le> 5 \<longrightarrow> curr_ph s' \<le> 5)"
proof (induction cs arbitrary: s)
  case Nil
  then show ?case by simp
next
  case (Cons c cs)
  then obtain s1 where 1: "run_call w c s = Some s1" and 2: "run_calls w cs s1 = Some s'"
    by (auto simp: bind_eq_Some_conv)
  from run_call_curr_ph [OF 1] Cons.IH [OF 2] show ?case by linarith
qed

lemma Shaping_init_curr_ph:
  "Shaping_init w e init_ph max_reps short_d th perf_w = Some s \<Longrightarrow> curr_ph s = init_ph"
  by (auto simp: Shaping_init_def bind_eq_Some_conv split: if_splits)

text \<open>
  C1. Claimed: for a controller constructed with \<open>init_ph\<close> in 0..4 the phase never decreases,
  stays in the range [0,5), and is left unchanged by \<open>set_phase\<close> once it equals 4.
  The code guards the advancement with \<open>curr_ph < 5\<close> and keeps five thresholds, so phase 4
  advances to phase 5: a controller constructed at phase 4 with a window of one entry reaches
  phase 5 on its first successful trial.
\<close>

theorem phase_reaches_5:
  "map_option curr_ph (run_calls scripted [NewTrial, Step 1] (start 4 1 [(1, True, 1)])) = Some 5"
  by code_simp

text \<open>
  C1, as the code has it: for a controller constructed with \<open>init_ph\<close> in 0..4 and every
  sequence of \<open>step\<close> and \<open>new_trial\<close> calls, the phase never decreases and stays in the range
  [0,5]; once it equals 5 it never advances further: \<open>set_phase\<close> invoked at phase 5 leaves
  the whole state unchanged.
\<close>

theorem phase_monotone_bounded:
  assumes "Shaping_init w e init_ph max_reps short_d th perf_w = Some s0"
    and "0 \<le> init_ph" and "init_ph \<le> 4"
    and "run_calls w cs s0 = Some s"
    and "run_calls w cs' s = Some s'"
  shows "curr_ph s \<le> curr_ph s' \<and> 0 \<le> curr_ph s \<and> curr_ph s' \<le> 5
         \<and> (curr_ph s' = 5 \<longrightarrow> set_phase w s' = Some s')"
proof -
  have 0: "curr_ph s0 = init_ph"
    using assms(1) by (rule Shaping_init_curr_ph)
  from run_calls_curr_ph [OF assms(4)] run_calls_curr_ph [OF assms(5)] 0 assms(2,3)
  have "curr_ph s \<le> curr_ph s' \<and> 0 \<le> curr_ph s \<and> curr_ph s' \<le> 5"
    by linarith
  then show ?thesis
    by (simp add: set_phase_at_5)
qed

theorem phase_monotone_bounded_witness:
  "Shaping_init scripted (scripted_env [(1, True, 1)]) 4 3 2 (4 / 5) 1
     = Some (start 4 1 [(1, True, 1)])
   \<and> (0::int) \<le> 4 \<and> (4::int) \<le> 4
   \<and> run_calls scripted [NewTrial] (start 4 1 [(1, True, 1)])
     = Some (the (run_calls scripted [NewTrial] (start 4 1 [(1, True, 1)])))
   \<and> run_calls scripted [Step 1] (the (run_calls scripted [NewTrial] (start 4 1 [(1, True, 1)])))
     = Some (the (run_calls scripted [NewTrial, Step 1] (start 4 1 [(1, True, 1)])))
   \<and> curr_ph (the (run_calls scripted [NewTrial] (start 4 1 [(1, True, 1)])))
     \<le> curr_ph (the (run_calls scripted [NewTrial, Step 1] (start 4 1 [(1, True, 1)])))
   \<and> curr_ph (the (run_calls scripted [NewTrial, Step 1] (start 4 1 [(1, True, 1)]))) = 5
   \<and> set_phase scripted (the (run_calls scripted [NewTrial, Step 1] (start 4 1 [(1, True, 1)])))
     = Some (the (run_calls scripted [NewTrial, Step 1] (start 4 1 [(1, True, 1)])))"
proof -
  have a: "Shaping_init scripted (scripted_env [(1, True, 1)]) 4 3 2 (4 / 5) 1
             = Some (start 4 1 [(1, True, 1)])"
    by code_simp
  have b: "run_calls scripted [NewTrial] (start 4 1 [(1, True, 1)])
             = Some (the (run_calls scripted [NewTrial] (start 4 1 [(1, True, 1)])))"
    by code_simp
  have c: "run_calls scripted [Step 1]
             (the (run_calls scripted [NewTrial] (start 4 1 [(1, True, 1)])))
             = Some (the (run_calls scripted [NewTrial, Step 1] (start 4 1 [(1, True, 1)])))"
    by code_simp
  have d: "curr_ph (the (run_calls scripted [NewTrial, Step 1] (start 4 1 [(1, True, 1)]))) = 5"
    by code_simp
  from phase_monotone_bounded [OF a _ _ b c] a b c d show ?thesis
    by simp
qed

subsection \<open>The reward\<close>

lemma step_delegated:
  assumes "\<not> curr_ph s < 2"
    and "env_step w a (env s) = ((ob, r0, dn, i0), e0)"
    and "step w a s = Some (res, s')"
  shows "res = (ob, (if curr_ph s < 5 then max r0 0 else r0), dn, i0)"
  using assms
  by (auto simp: step_def Let_def bind_eq_Some_conv split: if_splits)

lemma shape_boundary_env:
  assumes "shape_boundary a r i s = Some (r', i', s')"
  shows "env s' = env s"
  using assms
  by (auto simp: shape_boundary_def count_def Let_def bind_eq_Some_conv
           split: if_splits prod.splits)

lemma shape_boundary_reward:
  assumes "shape_boundary a r i s = Some (r', i', s')" and "curr_ph s \<noteq> 0" and "0 \<le> r"
  shows "r' \<le> r"
  using assms
  by (auto simp: shape_boundary_def Let_def bind_eq_Some_conv
           split: if_splits prod.splits)

lemma shape_timeout_reward:
  assumes "shape_timeout r i s = Some (r', i')"
    and "case env_r_tmax (env s) of None \<Rightarrow> True | Some rt \<Rightarrow> rt \<le> 0"
  shows "r' \<le> r"
  using assms
  by (auto simp: shape_timeout_def Let_def bind_eq_Some_conv
           split: if_splits prod.splits)

text \<open>The stages of a step in the phases below 2, read off a successful call.\<close>

lemma step_shapedE:
  assumes "curr_ph s < 2"
    and "env__step w a (env s) = ((ob0, r0, dn0, i0), e0)"
    and "step w a s = Some ((ob, r, dn, i), s')"
  obtains tv d k r1 i1 s1 s2 i2 where
      "env_t e0 = Some tv" and "env_dt e0 = Some d" and "env_t_ind e0 = Some k"
      and "s1 = s\<lparr>env := e0\<lparr>env_t := Some (tv + d), env_t_ind := Some (k + 1)\<rparr>\<rparr>"
      and "(if info_new_trial i0 then shape_boundary a (max r0 0) i0 s1
            else Some (max r0 0, i0, s1)) = Some (r1, i1, s2)"
      and "shape_timeout r1 i1 s2 = Some (r, i2)"
      and "ob = ob0" and "dn = dn0"
      and "info_new_trial i2 \<longrightarrow> new_trial w s2 = Some s'"
      and "info_new_trial i2 \<longrightarrow> i = i2\<lparr>info_performance := Some (performance s2)\<rparr>"
      and "\<not> info_new_trial i2 \<longrightarrow> s' = s2 \<and> i = i2"
proof -
  from assms obtain tv d k r1 i1 s2 r2 i2 where
      1: "env_t e0 = Some tv" "env_dt e0 = Some d" "env_t_ind e0 = Some k"
      and 2: "(if info_new_trial i0
            then shape_boundary a (max r0 0) i0
                   (s\<lparr>env := e0\<lparr>env_t := Some (tv + d), env_t_ind := Some (k + 1)\<rparr>\<rparr>)
            else Some (max r0 0, i0,
                   s\<lparr>env := e0\<lparr>env_t := Some (tv + d), env_t_ind := Some (k + 1)\<rparr>\<rparr>))
           = Some (r1, i1, s2)"
      and 3: "shape_timeout r1 i1 s2 = Some (r2, i2)"
      and 4: "(if info_new_trial i2
            then new_trial w s2 \<bind>
                 (\<lambda>s3. Some ((ob0, r2, dn0, i2\<lparr>info_performance := Some (performance s2)\<rparr>), s3))
            else Some ((ob0, r2, dn0, i2), s2)) = Some ((ob, r, dn, i), s')"
    by (clarsimp simp: step_def Let_def bind_eq_Some_conv)
  from 4 have 5: "r2 = r" "ob = ob0" "dn = dn0"
    by (auto split: if_splits simp: bind_eq_Some_conv)
  from 4 have 6: "info_new_trial i2 \<longrightarrow> new_trial w s2 = Some s'"
      "info_new_trial i2 \<longrightarrow> i = i2\<lparr>info_performance := Some (performance s2)\<rparr>"
      "\<not> info_new_trial i2 \<longrightarrow> s' = s2 \<and> i = i2"
    by (auto split: if_splits simp: bind_eq_Some_conv)
  show thesis
    by (rule that [OF 1 refl 2 3 [unfolded 5(1)] 5(2,3) 6])
qed

text \<open>
  C2. Claimed: at phase 4 \<open>step\<close> returns the reward and the performance of the wrapped
  environment unmodified. The code floors the reward at 0 for \<open>2 <= curr_ph < 5\<close>, which
  includes phase 4: a reward of -1 from the wrapped environment is returned as 0.
\<close>

theorem phase_4_floors_reward:
  "map_option (\<lambda>(res, s). reward_of res) (step scripted 1 (start 4 1000 [(- 1, False, 0)]))
     = Some 0
   \<and> reward_of (base_result scripted 1 (start 4 1000 [(- 1, False, 0)])) = - 1"
  by code_simp

text \<open>
  C2, as the code has it: at phase 4 (and above) \<open>step\<close> delegates to the \<open>step\<close> of the
  wrapped environment and returns its observation, its done flag and its info, so its
  performance, unmodified; at phase 4 the reward returned is the wrapped environment's
  reward floored at 0, and from phase 5 on it is that reward unmodified.
\<close>

theorem step_phase_4:
  assumes "4 \<le> curr_ph s"
    and "step w a s = Some (res, s')"
  shows "obs_of res = obs_of (base_result w a s)
         \<and> done_of res = done_of (base_result w a s)
         \<and> info_of res = info_of (base_result w a s)
         \<and> reward_of res = (if curr_ph s = 4 then max (reward_of (base_result w a s)) 0
                             else reward_of (base_result w a s))"
proof -
  obtain ob0 r0 dn0 i0 e0 where b: "env_step w a (env s) = ((ob0, r0, dn0, i0), e0)"
    by (metis prod_cases4 surj_pair)
  from assms(1) have p: "\<not> curr_ph s < 2" by simp
  from step_delegated [OF p b assms(2)] assms(1) p b show ?thesis
    by (auto simp: base_result_def obs_of_def done_of_def info_of_def reward_of_def)
qed

theorem step_phase_4_witness:
  "(4::int) \<le> curr_ph (start 4 1000 [(- 1, False, 0)])
   \<and> step scripted 1 (start 4 1000 [(- 1, False, 0)])
     = Some (the (step scripted 1 (start 4 1000 [(- 1, False, 0)])))
   \<and> info_of (fst (the (step scripted 1 (start 4 1000 [(- 1, False, 0)]))))
     = info_of (base_result scripted 1 (start 4 1000 [(- 1, False, 0)]))
   \<and> reward_of (fst (the (step scripted 1 (start 4 1000 [(- 1, False, 0)])))) = 0"
proof -
  have a: "(4::int) \<le> curr_ph (start 4 1000 [(- 1, False, 0)])"
    by code_simp
  have b: "step scripted 1 (start 4 1000 [(- 1, False, 0)])
           = Some (fst (the (step scripted 1 (start 4 1000 [(- 1, False, 0)]))),
                   snd (the (step scripted 1 (start 4 1000 [(- 1, False, 0)]))))"
    by code_simp
  have c: "curr_ph (start 4 1000 [(- 1, False, 0)]) = 4"
    by code_simp
  have d: "reward_of (base_result scripted 1 (start 4 1000 [(- 1, False, 0)])) = - 1"
    by code_simp
  from step_phase_4 [OF a b] a b c d show ?thesis
    by simp
qed

text \<open>
  C3. Claimed: in every phase the reward returned by \<open>step\<close> is at most the reward of the
  wrapped environment. The code floors a negative reward at 0 in the phases 0 to 4, and at a
  trial boundary of phase 0 it returns the configured \<open>'correct'\<close> reward whatever the wrapped
  environment returned: -1 becomes 0 at phase 2, and 0 becomes 1 at a boundary of phase 0.
\<close>

theorem reward_amplified:
  "map_option (\<lambda>(res, s). reward_of res) (step scripted 1 (start 2 1000 [(- 1, False, 0)]))
     = Some 0
   \<and> reward_of (base_result scripted 1 (start 2 1000 [(- 1, False, 0)])) = - 1
   \<and> map_option (\<lambda>(res, s). reward_of res) (step scripted 1 (start 0 1000 [(0, True, 0)]))
     = Some 1
   \<and> reward_of (base_result scripted 1 (start 0 1000 [(0, True, 0)])) = 0"
  by code_simp

text \<open>
  C3, as the code has it: for every phase, action and reward of the wrapped environment,
  the reward returned by \<open>step\<close> is at most the larger of that reward and 0, so at most that
  reward whenever it is not negative, except at a trial boundary of phase 0 (where the reward
  is replaced by 0 or by the \<open>'correct'\<close> reward) and provided the timeout reward \<open>r_tmax\<close>
  that the phases below 2 add at a forced boundary is not positive.
\<close>

theorem reward_not_amplified:
  assumes "step w a s = Some (res, s')"
    and "curr_ph s = 0 \<Longrightarrow> \<not> info_new_trial (info_of (base_result w a s))"
    and "curr_ph s < 2 \<Longrightarrow>
         (case env_r_tmax (base_env w a s) of None \<Rightarrow> True | Some rt \<Rightarrow> rt \<le> 0)"
  shows "reward_of res \<le> max (reward_of (base_result w a s)) 0
         \<and> (0 \<le> reward_of (base_result w a s)
              \<longrightarrow> reward_of res \<le> reward_of (base_result w a s))"
proof (cases "curr_ph s < 2")
  case True
  obtain ob0 r0 dn0 i0 e0 where b: "env__step w a (env s) = ((ob0, r0, dn0, i0), e0)"
    by (metis prod_cases4 surj_pair)
  obtain ob r dn i where res: "res = (ob, r, dn, i)"
    by (metis prod_cases4)
  have br: "base_result w a s = (ob0, r0, dn0, i0)" and be: "base_env w a s = e0"
    using True b by (simp_all add: base_result_def base_env_def)
  from True b assms(1) [unfolded res] obtain tv d k r1 i1 s1 s2 i2 where
      s1: "s1 = s\<lparr>env := e0\<lparr>env_t := Some (tv + d), env_t_ind := Some (k + 1)\<rparr>\<rparr>"
      and sb: "(if info_new_trial i0 then shape_boundary a (max r0 0) i0 s1
            else Some (max r0 0, i0, s1)) = Some (r1, i1, s2)"
      and st: "shape_timeout r1 i1 s2 = Some (r, i2)"
    by (rule step_shapedE)
  have ph: "curr_ph s1 = curr_ph s" by (simp add: s1)
  have r1: "r1 \<le> max r0 0"
  proof (cases "info_new_trial i0")
    case True
    with assms(2) ph br have "curr_ph s1 \<noteq> 0" by (auto simp: info_of_def)
    from shape_boundary_reward [OF _ this] sb True show ?thesis by simp
  next
    case False
    with sb show ?thesis by simp
  qed
  have "env s2 = env s1"
    using sb shape_boundary_env by (auto split: if_splits)
  then have "env_r_tmax (env s2) = env_r_tmax e0" by (simp add: s1)
  with assms(3) [OF True] be
  have "case env_r_tmax (env s2) of None \<Rightarrow> True | Some rt \<Rightarrow> rt \<le> 0"
    by simp
  from shape_timeout_reward [OF st this] r1 have "r \<le> max r0 0" by simp
  then show ?thesis by (auto simp: res br reward_of_def)
next
  case False
  obtain ob0 r0 dn0 i0 e0 where b: "env_step w a (env s) = ((ob0, r0, dn0, i0), e0)"
    by (metis prod_cases4 surj_pair)
  have br: "base_result w a s = (ob0, r0, dn0, i0)"
    using False b by (simp add: base_result_def)
  from step_delegated [OF False b assms(1)] show ?thesis
    by (auto simp: br reward_of_def)
qed

theorem reward_not_amplified_witness:
  "step scripted 1 (start 1 1000 [(1, True, 0)])
     = Some (the (step scripted 1 (start 1 1000 [(1, True, 0)])))
   \<and> curr_ph (start 1 1000 [(1, True, 0)]) = 1
   \<and> env_r_tmax (base_env scripted 1 (start 1 1000 [(1, True, 0)])) = Some 0
   \<and> reward_of (base_result scripted 1 (start 1 1000 [(1, True, 0)])) = 1
   \<and> reward_of (fst (the (step scripted 1 (start 1 1000 [(1, True, 0)])))) \<le> 1"
proof -
  have a: "step scripted 1 (start 1 1000 [(1, True, 0)])
           = Some (fst (the (step scripted 1 (start 1 1000 [(1, True, 0)]))),
                   snd (the (step scripted 1 (start 1 1000 [(1, True, 0)]))))"
    by code_simp
  have b: "curr_ph (start 1 1000 [(1, True, 0)]) = 1"
    by code_simp
  have c: "env_r_tmax (base_env scripted 1 (start 1 1000 [(1, True, 0)])) = Some 0"
    by code_simp
  have d: "reward_of (base_result scripted 1 (start 1 1000 [(1, True, 0)])) = 1"
    by code_simp
  from reward_not_amplified [OF a] a b c d show ?thesis
    by simp
qed

subsection \<open>Phase 0: the repetition counter\<close>

lemma streak_snoc:
  "streak (ys @ [a]) = (if ys \<noteq> [] \<and> last ys = a then Suc (streak ys) else 1)"
  by (cases ys rule: rev_cases) (simp_all add: streak_def)

lemma count_counter:
  "counter (count a s) = (if a = 0 then counter s else if a = prev_act s then counter s + 1 else 1)"
  "prev_act (count a s) = (if a = 0 then prev_act s else a)"
  by (simp_all add: count_def)

text \<open>What the counter counts: starting from the constructor's values, after any sequence of
  calls of \<open>count\<close> it is the streak of the sequence with the neutral actions left out.\<close>

lemma counter_is_streak:
  assumes "counter s = 0" and "prev_act s = 0"
  shows "counter (foldl (\<lambda>s a. count a s) s as) = int (streak (filter (\<lambda>a. a \<noteq> 0) as))
       \<and> prev_act (foldl (\<lambda>s a. count a s) s as)
           = (if filter (\<lambda>a. a \<noteq> 0) as = [] then 0 else last (filter (\<lambda>a. a \<noteq> 0) as))"
proof (induction as rule: rev_induct)
  case Nil
  show ?case using assms by (simp add: streak_def)
next
  case (snoc a as)
  show ?case
  proof (cases "a = 0")
    case True
    with snoc show ?thesis by (simp add: count_counter)
  next
    case False
    with snoc show ?thesis
      by (simp add: count_counter streak_snoc)
  qed
qed

lemma set_phase_counter:
  "set_phase w s = Some s' \<Longrightarrow>
   counter s' = counter s \<and> prev_act s' = prev_act s \<and> max_num_reps s' = max_num_reps s"
  by (auto simp: set_phase_def Let_def bind_eq_Some_conv split: if_splits)

lemma new_trial_reset_counter:
  assumes "new_trial_reset w s = Some s'"
  shows "counter s' = counter s \<and> prev_act s' = prev_act s"
proof -
  from assms obtain s1 where 0: "set_phase w s = Some s1"
    and 1: "counter s' = counter s1" "prev_act s' = prev_act s1"
    by (auto simp: new_trial_reset_def Let_def bind_eq_Some_conv)
  with set_phase_counter [OF 0] show ?thesis by simp
qed

lemma new_trial_timing_counter:
  assumes "new_trial_timing w s = Some s'"
  shows "counter s' = counter s \<and> prev_act s' = prev_act s"
  using assms
  by (auto simp: new_trial_timing_def Let_def bind_eq_Some_conv split: if_splits prod.splits)

lemma new_trial_counter:
  assumes "new_trial w s = Some s'"
  shows "counter s' = counter s \<and> prev_act s' = prev_act s"
proof -
  from assms obtain s1 s2 where 1: "new_trial_reset w s = Some s1"
    and 2: "new_trial_timing w s1 = Some s2" and 3: "s' = s2\<lparr>env := env_new_trial w (env s2)\<rparr>"
    by (auto simp: new_trial_def new_trial_pre_def bind_eq_Some_conv)
  from new_trial_reset_counter [OF 1] new_trial_timing_counter [OF 2] 3 show ?thesis by simp
qed

lemma shape_timeout_boundary:
  assumes "shape_timeout r i s = Some (r', i')" and "info_new_trial i"
  shows "r' = r \<and> i' = i"
  using assms
  by (auto simp: shape_timeout_def bind_eq_Some_conv split: if_splits)

text \<open>
  C4. Claimed: at a trial boundary of phase 0 the reward and the performance are 0 if the
  chosen non-neutral action has been repeated more than \<open>max_num_reps\<close> consecutive times,
  counted by a streak counter that resets whenever the action changes, and otherwise the
  reward is the \<open>'correct'\<close> reward and the performance is 1. The counter of the code skips
  the neutral action 0: it neither counts it nor restarts at it. With \<open>max_num_reps = 3\<close> and
  the boundary actions 1, 1, 0, 1, 1 the last action has been repeated twice in a row, yet
  the counter stands at 4 and the fifth trial ends with reward 0 and performance 0.
\<close>

theorem streak_survives_neutral_action:
  "map_option (\<lambda>(res, s). (reward_of res, info_performance (info_of res)))
     (run_calls scripted [Step 1, Step 1, Step 0, Step 1]
        (start 0 1000 [(0, True, 0), (0, True, 0), (0, True, 0), (0, True, 0), (0, True, 0)])
      \<bind> step scripted 1)
     = Some (0, Some 0)
   \<and> streak [1, 1, 0, 1, 1] = 2
   \<and> max_num_reps (start 0 1000 []) = 3
   \<and> correct_reward (scripted_env []) = Some 1"
  by code_simp

text \<open>
  C4, as the code has it: in phase 0, at every trial boundary reported by the wrapped
  environment, the streak counter is first updated with the chosen action: a neutral action
  leaves it unchanged, a non-neutral action equal to the previous non-neutral one increments
  it, any other non-neutral action resets it to 1. If the counter then exceeds
  \<open>max_num_reps\<close> the returned reward is 0 and the trial performance is 0; otherwise the
  returned reward is the configured \<open>'correct'\<close> reward and the trial performance is 1,
  whatever the wrapped environment returned. The counter is kept across the trial boundary.
\<close>

theorem phase_0_boundary:
  assumes "curr_ph s = 0"
    and "info_new_trial (info_of (base_result w a s))"
    and "step w a s = Some (res, s')"
  shows "counter (count a s)
           = (if a = 0 then counter s else if a = prev_act s then counter s + 1 else 1)
       \<and> (if max_num_reps s < counter (count a s)
           then reward_of res = 0 \<and> info_performance (info_of res) = Some 0
           else correct_reward (base_env w a s) = Some (reward_of res)
                \<and> info_performance (info_of res) = Some 1)
       \<and> counter s' = counter (count a s)"
proof -
  obtain ob0 r0 dn0 i0 e0 where b: "env__step w a (env s) = ((ob0, r0, dn0, i0), e0)"
    by (metis prod_cases4 surj_pair)
  obtain ob r dn i where res: "res = (ob, r, dn, i)"
    by (metis prod_cases4)
  have lt: "curr_ph s < 2" using assms(1) by simp
  have br: "base_result w a s = (ob0, r0, dn0, i0)" and be: "base_env w a s = e0"
    using lt b by (simp_all add: base_result_def base_env_def)
  from assms(2) br have nt0: "info_new_trial i0" by (simp add: info_of_def)
  from lt b assms(3) [unfolded res] obtain tv d k r1 i1 s1 s2 i2 where
      s1: "s1 = s\<lparr>env := e0\<lparr>env_t := Some (tv + d), env_t_ind := Some (k + 1)\<rparr>\<rparr>"
      and sb: "(if info_new_trial i0 then shape_boundary a (max r0 0) i0 s1
            else Some (max r0 0, i0, s1)) = Some (r1, i1, s2)"
      and st: "shape_timeout r1 i1 s2 = Some (r, i2)"
      and nt: "info_new_trial i2 \<longrightarrow> new_trial w s2 = Some s'"
      and ni: "info_new_trial i2 \<longrightarrow> i = i2\<lparr>info_performance := Some (performance s2)\<rparr>"
    by (rule step_shapedE)
  from sb nt0 have sb': "shape_boundary a (max r0 0) i0 s1 = Some (r1, i1, s2)" by simp
  have c1: "count a s1
            = (count a s)\<lparr>env := e0\<lparr>env_t := Some (tv + d), env_t_ind := Some (k + 1)\<rparr>\<rparr>"
    by (simp add: s1 count_def)
  from sb' assms(1) have i1: "i1 = i0"
    and cs2: "counter s2 = counter (count a s)" "prev_act s2 = prev_act (count a s)"
    and body: "if max_num_reps s < counter (count a s)
           then r1 = 0 \<and> performance s2 = 0
           else correct_reward e0 = Some r1 \<and> performance s2 = 1"
    by (auto simp: shape_boundary_def Let_def c1 s1 correct_reward_def bind_eq_Some_conv
                   count_def
             split: if_splits)
  from shape_timeout_boundary [OF st] nt0 i1 have r: "r = r1" and i2: "i2 = i0" by simp_all
  from nt ni i2 nt0 have nt': "new_trial w s2 = Some s'"
     and i: "i = i0\<lparr>info_performance := Some (performance s2)\<rparr>" by simp_all
  from new_trial_counter [OF nt'] cs2 have "counter s' = counter (count a s)" by simp
  with body r i be show ?thesis
    by (auto simp: res reward_of_def info_of_def count_counter)
qed

theorem phase_0_boundary_witness:
  "curr_ph (start 0 1000 [(0, True, 0)]) = 0
   \<and> info_new_trial (info_of (base_result scripted 1 (start 0 1000 [(0, True, 0)])))
   \<and> step scripted 1 (start 0 1000 [(0, True, 0)])
     = Some (the (step scripted 1 (start 0 1000 [(0, True, 0)])))
   \<and> counter (count 1 (start 0 1000 [(0, True, 0)])) = 1
   \<and> max_num_reps (start 0 1000 [(0, True, 0)]) = 3
   \<and> reward_of (fst (the (step scripted 1 (start 0 1000 [(0, True, 0)])))) = 1
   \<and> info_performance (info_of (fst (the (step scripted 1 (start 0 1000 [(0, True, 0)])))))
     = Some 1
   \<and> counter (snd (the (step scripted 1 (start 0 1000 [(0, True, 0)])))) = 1"
proof -
  have a: "curr_ph (start 0 1000 [(0, True, 0)]) = 0"
    by code_simp
  have b: "info_new_trial (info_of (base_result scripted 1 (start 0 1000 [(0, True, 0)])))"
    by code_simp
  have c: "step scripted 1 (start 0 1000 [(0, True, 0)])
           = Some (fst (the (step scripted 1 (start 0 1000 [(0, True, 0)]))),
                   snd (the (step scripted 1 (start 0 1000 [(0, True, 0)]))))"
    by code_simp
  have d: "counter (count 1 (start 0 1000 [(0, True, 0)])) = 1"
    by code_simp
  have e: "max_num_reps (start 0 1000 [(0, True, 0)]) = 3"
    by code_simp
  have f: "correct_reward (base_env scripted 1 (start 0 1000 [(0, True, 0)])) = Some 1"
    by code_simp
  from phase_0_boundary [OF a b c] a b c d e f show ?thesis
    by simp
qed

subsection \<open>Phase 1: the suppressed boundary\<close>






subsection \<open>The rolling window\<close>

lemma set_phase_window:
  assumes "set_phase w s = Some s'" and "window_ok s pw"
  shows "window_ok s' pw"
  using assms
  by (auto simp: set_phase_def window_ok_def Let_def bind_eq_Some_conv split: if_splits)

lemma new_trial_reset_window:
  assumes "new_trial_reset w s = Some s'" and "window_ok s pw"
  shows "window_ok s' pw"
proof -
  from assms(1) obtain s1 where 1: "set_phase w s = Some s1"
    and 2: "mov_window s' = mov_window s1" "perf_window s' = perf_window s1"
    by (auto simp: new_trial_reset_def Let_def bind_eq_Some_conv)
  from set_phase_window [OF 1 assms(2)] 2 show ?thesis
    by (simp add: window_ok_def)
qed

lemma new_trial_timing_window:
  assumes "new_trial_timing w s = Some s'" and "window_ok s pw"
  shows "window_ok s' pw"
  using assms
  by (auto simp: new_trial_timing_def window_ok_def Let_def bind_eq_Some_conv
           split: if_splits prod.splits)

lemma new_trial_window:
  assumes "new_trial w s = Some s'" and "window_ok s pw"
  shows "window_ok s' pw"
proof -
  from assms(1) obtain s1 s2 where 1: "new_trial_reset w s = Some s1"
    and 2: "new_trial_timing w s1 = Some s2" and 3: "s' = s2\<lparr>env := env_new_trial w (env s2)\<rparr>"
    by (auto simp: new_trial_def new_trial_pre_def bind_eq_Some_conv)
  from new_trial_timing_window [OF 2 new_trial_reset_window [OF 1 assms(2)]] 3 show ?thesis
    by (simp add: window_ok_def)
qed

lemma shape_boundary_window:
  assumes "shape_boundary a r i s = Some (r', i', s')" and "window_ok s pw"
  shows "window_ok s' pw"
  using assms
  by (auto simp: shape_boundary_def count_def window_ok_def Let_def bind_eq_Some_conv
           split: if_splits prod.splits)

lemma step_window:
  assumes "step w a s = Some (res, s')" and "window_ok s pw"
  shows "window_ok s' pw"
proof (cases "curr_ph s < 2")
  case True
  obtain ob0 r0 dn0 i0 e0 where b: "env__step w a (env s) = ((ob0, r0, dn0, i0), e0)"
    by (metis prod_cases4 surj_pair)
  obtain ob r dn i where res: "res = (ob, r, dn, i)"
    by (metis prod_cases4)
  from True b assms(1) [unfolded res] obtain tv d k r1 i1 s1 s2 i2 where
      s1: "s1 = s\<lparr>env := e0\<lparr>env_t := Some (tv + d), env_t_ind := Some (k + 1)\<rparr>\<rparr>"
      and sb: "(if info_new_trial i0 then shape_boundary a (max r0 0) i0 s1
            else Some (max r0 0, i0, s1)) = Some (r1, i1, s2)"
      and nt: "info_new_trial i2 \<longrightarrow> new_trial w s2 = Some s'"
      and no: "\<not> info_new_trial i2 \<longrightarrow> s' = s2 \<and> i = i2"
    by (rule step_shapedE)
  from assms(2) have "window_ok s1 pw" by (simp add: s1 window_ok_def)
  with sb have "window_ok s2 pw"
    by (auto split: if_splits dest: shape_boundary_window)
  with nt no show ?thesis
    by (cases "info_new_trial i2") (auto dest: new_trial_window)
next
  case False
  obtain ob0 r0 dn0 i0 e0 where b: "env_step w a (env s) = ((ob0, r0, dn0, i0), e0)"
    by (metis prod_cases4 surj_pair)
  have "\<And>p. window_ok (s\<lparr>env := e0, performance := p\<rparr>) pw" "window_ok (s\<lparr>env := e0\<rparr>) pw"
    using assms(2) by (simp_all add: window_ok_def)
  with assms(1) False b show ?thesis
    by (auto simp: step_def Let_def bind_eq_Some_conv split: if_splits dest: new_trial_window)
qed

lemma run_calls_window:
  "run_calls w cs s = Some s' \<Longrightarrow> window_ok s pw \<Longrightarrow> window_ok s' pw"
proof (induction cs arbitrary: s)
  case Nil
  then show ?case by simp
next
  case (Cons c cs)
  then obtain s1 where 1: "run_call w c s = Some s1" and 2: "run_calls w cs s1 = Some s'"
    by (auto simp: bind_eq_Some_conv)
  from 1 Cons.prems(2) have "window_ok s1 pw"
    by (cases c) (auto dest: step_window new_trial_window)
  from Cons.IH [OF 2 this] show ?case .
qed

lemma Shaping_init_window:
  "Shaping_init w e init_ph max_reps short_d th perf_w = Some s \<Longrightarrow> 0 \<le> perf_w \<Longrightarrow>
   window_ok s perf_w"
  by (auto simp: Shaping_init_def window_ok_def bind_eq_Some_conv split: if_splits)

text \<open>
  C6. Claimed: the window never holds more than \<open>perf_w\<close> entries, the mean is evaluated only
  on a full window, and the window is cleared immediately after that evaluation. The code
  clears the window only when the mean reaches the threshold; otherwise the window stays full
  and slides. With a window of two entries and the outcomes 0, 1, 0 the mean 1/2 is evaluated
  and the window still holds 1, 0.
\<close>

theorem window_not_cleared:
  "map_option (\<lambda>s. (curr_perf s, mov_window s))
     (run_calls scripted [NewTrial, Step 1, Step 1] (start 2 2 [(1, True, 1), (0, True, 0)]))
     = Some (Val (1 / 2), [1, 0])"
  by code_simp

text \<open>
  C6, as the code has it: for a window size \<open>perf_w\<close> that is not negative and every sequence
  of calls, the window never holds more than \<open>perf_w\<close> entries when \<open>set_phase\<close> is called or
  when it returns. While the window holds fewer than \<open>perf_w\<close> entries, \<open>set_phase\<close> only
  appends the outcome: no mean is evaluated and the phase is not checked. When the window
  holds \<open>perf_w\<close> entries, the outcome is appended and the oldest entry dropped, the mean is
  evaluated on these \<open>perf_w\<close> entries, and the window is cleared, with the phase advanced, if
  the mean reaches the threshold; otherwise the window keeps these entries.
\<close>

theorem window_bounded_and_slides:
  assumes "Shaping_init w e init_ph max_reps short_d th perf_w = Some s0"
    and "0 \<le> perf_w"
    and "run_calls w cs s0 = Some s"
    and "set_phase w s = Some s'"
    and "curr_ph s < 5"
    and "py_index (goal_perf s) (curr_ph s) = Some g"
  shows "int (length (mov_window s)) \<le> perf_w \<and> int (length (mov_window s')) \<le> perf_w
     \<and> (int (length (mov_window s)) < perf_w \<longrightarrow>
          s' = s\<lparr>mov_window := mov_window s @ [performance s]\<rparr>)
     \<and> (int (length (mov_window s)) = perf_w \<longrightarrow>
          int (length (tl (mov_window s @ [performance s]))) = perf_w
          \<and> curr_perf s' = np_mean w (tl (mov_window s @ [performance s]))
          \<and> mov_window s' = (if np_ge (curr_perf s') g then []
                              else tl (mov_window s @ [performance s]))
          \<and> curr_ph s' = (if np_ge (curr_perf s') g then curr_ph s + 1 else curr_ph s))"
proof -
  have ok: "window_ok s perf_w"
    using run_calls_window [OF assms(3) Shaping_init_window [OF assms(1,2)]] .
  have ok': "window_ok s' perf_w"
    using set_phase_window [OF assms(4) ok] .
  from ok ok' assms(4,5,6) show ?thesis
    by (auto simp: set_phase_def window_ok_def Let_def split: if_splits)
qed

theorem window_bounded_and_slides_witness:
  "Shaping_init scripted (scripted_env [(1, True, 1)]) 2 3 2 (4 / 5) 2
     = Some (start 2 2 [(1, True, 1)])
   \<and> (0::int) \<le> 2
   \<and> run_calls scripted [NewTrial, Step 1] (start 2 2 [(1, True, 1)])
     = Some (the (run_calls scripted [NewTrial, Step 1] (start 2 2 [(1, True, 1)])))
   \<and> set_phase scripted (the (run_calls scripted [NewTrial, Step 1] (start 2 2 [(1, True, 1)])))
     = Some (the (set_phase scripted
                   (the (run_calls scripted [NewTrial, Step 1] (start 2 2 [(1, True, 1)])))))
   \<and> mov_window (the (run_calls scripted [NewTrial, Step 1] (start 2 2 [(1, True, 1)]))) = [0, 1]
   \<and> curr_perf (the (set_phase scripted
                   (the (run_calls scripted [NewTrial, Step 1] (start 2 2 [(1, True, 1)])))))
     = Val (1 / 2)
   \<and> mov_window (the (set_phase scripted
                   (the (run_calls scripted [NewTrial, Step 1] (start 2 2 [(1, True, 1)])))))
     = [1, 0]"
proof -
  have a: "Shaping_init scripted (scripted_env [(1, True, 1)]) 2 3 2 (4 / 5) 2
           = Some (start 2 2 [(1, True, 1)])"
    by code_simp
  have b: "run_calls scripted [NewTrial, Step 1] (start 2 2 [(1, True, 1)])
           = Some (the (run_calls scripted [NewTrial, Step 1] (start 2 2 [(1, True, 1)])))"
    by code_simp
  have c: "set_phase scripted
             (the (run_calls scripted [NewTrial, Step 1] (start 2 2 [(1, True, 1)])))
           = Some (the (set_phase scripted
                   (the (run_calls scripted [NewTrial, Step 1] (start 2 2 [(1, True, 1)])))))"
    by code_simp
  have d: "curr_ph (the (run_calls scripted [NewTrial, Step 1] (start 2 2 [(1, True, 1)]))) < 5"
    by code_simp
  have e: "py_index (goal_perf (the (run_calls scripted [NewTrial, Step 1]
                                       (start 2 2 [(1, True, 1)]))))
             (curr_ph (the (run_calls scripted [NewTrial, Step 1] (start 2 2 [(1, True, 1)]))))
           = Some (4 / 5)"
    by code_simp
  have f: "mov_window (the (run_calls scripted [NewTrial, Step 1] (start 2 2 [(1, True, 1)])))
           = [0, 1]"
    by code_simp
  have g: "performance (the (run_calls scripted [NewTrial, Step 1] (start 2 2 [(1, True, 1)])))
           = 0"
    by code_simp
  have h: "np_mean scripted [1, 0] = Val (1 / 2)"
    by code_simp
  from window_bounded_and_slides [OF a _ b c d e] a b c f g h show ?thesis
    by simp
qed

subsection \<open>Construction\<close>




subsection \<open>The mutations of new\_trial\<close>

lemma set_phase_env: "set_phase w s = Some s' \<Longrightarrow> env s' = env s"
  by (auto simp: set_phase_def Let_def bind_eq_Some_conv split: if_splits)

lemma new_trial_reset_env:
  assumes "new_trial_reset w s = Some s'"
  shows "\<exists>n. env_num_tr (env s) = Some n
     \<and> env s' = (env s)\<lparr>env_performance := Some 0, env_t := Some 0, env_t_ind := Some 0,
                         env_num_tr := Some (n + 1)\<rparr>"
  using assms
  by (auto simp: new_trial_reset_def Let_def bind_eq_Some_conv dest!: set_phase_env)

lemma new_trial_timing_env:
  assumes "new_trial_timing w s = Some s'"
  shows "env_performance (env s') = env_performance (env s)
       \<and> env_t (env s') = env_t (env s)
       \<and> env_t_ind (env s') = env_t_ind (env s)
       \<and> env_num_tr (env s') = env_num_tr (env s)"
  using assms
  by (auto simp: new_trial_timing_def build_timing_fns_def Let_def bind_eq_Some_conv
           split: if_splits prod.splits)

text \<open>
  C10. Every call of \<open>new_trial\<close> that returns, in every phase, has set the wrapped
  environment's \<open>performance\<close>, \<open>t\<close> and \<open>t_ind\<close> to 0 and incremented its \<open>num_tr\<close> by exactly 1
  before it delegates: the environment handed to the wrapped environment's own \<open>new_trial\<close>
  is the one these mutations produced (\<open>m\<close> below), and the result is what that method
  returns for it.
\<close>

theorem new_trial_resets_before_delegating:
  assumes "new_trial w s = Some s'"
  shows "\<exists>m n. new_trial_pre w s = Some m
           \<and> s' = m\<lparr>env := env_new_trial w (env m)\<rparr>
           \<and> env_performance (env m) = Some 0
           \<and> env_t (env m) = Some 0
           \<and> env_t_ind (env m) = Some 0
           \<and> env_num_tr (env s) = Some n
           \<and> env_num_tr (env m) = Some (n + 1)"
proof -
  from assms obtain m where m: "new_trial_pre w s = Some m"
      and s': "s' = m\<lparr>env := env_new_trial w (env m)\<rparr>"
    by (auto simp: new_trial_def bind_eq_Some_conv)
  from m obtain s1 where 1: "new_trial_reset w s = Some s1"
      and 2: "new_trial_timing w s1 = Some m"
    by (auto simp: new_trial_pre_def bind_eq_Some_conv)
  from new_trial_reset_env [OF 1] obtain n where n: "env_num_tr (env s) = Some n"
     and e1: "env s1 = (env s)\<lparr>env_performance := Some 0, env_t := Some 0,
                                env_t_ind := Some 0, env_num_tr := Some (n + 1)\<rparr>"
    by blast
  from new_trial_timing_env [OF 2] e1 m s' n show ?thesis
    by simp
qed

theorem new_trial_resets_before_delegating_witness:
  "new_trial scripted (start 3 1000 []) = Some (the (new_trial scripted (start 3 1000 [])))
   \<and> new_trial_pre scripted (start 3 1000 [])
     = Some (the (new_trial_pre scripted (start 3 1000 [])))
   \<and> env_num_tr (env (start 3 1000 [])) = Some 0
   \<and> env_num_tr (env (the (new_trial_pre scripted (start 3 1000 [])))) = Some 1
   \<and> env_performance (env (the (new_trial_pre scripted (start 3 1000 [])))) = Some 0
   \<and> env_t (env (the (new_trial_pre scripted (start 3 1000 [])))) = Some 0
   \<and> env_t_ind (env (the (new_trial_pre scripted (start 3 1000 [])))) = Some 0"
proof -
  have a: "new_trial scripted (start 3 1000 []) = Some (the (new_trial scripted (start 3 1000 [])))"
    by code_simp
  have b: "env_num_tr (env (start 3 1000 [])) = Some 0"
    by code_simp
  from new_trial_resets_before_delegating [OF a] obtain m n where
      "new_trial_pre scripted (start 3 1000 []) = Some m"
      "env_performance (env m) = Some 0" "env_t (env m) = Some 0" "env_t_ind (env m) = Some 0"
      "env_num_tr (env (start 3 1000 [])) = Some n" "env_num_tr (env m) = Some (n + 1)"
    by blast
  with a b show ?thesis
    by simp
qed

subsection \<open>The forced-short timing of the phases 0 and 1\<close>

lemma force_constant_keys:
  "fst ` set xs \<subseteq> fst ` set tm \<Longrightarrow> map fst (force_constant cp sd xs tm) = map fst tm"
proof (induction xs arbitrary: tm)
  case Nil
  then show ?case by simp
next
  case (Cons x xs)
  obtain key val where x: "x = (key, val)" by (cases x)
  let ?tm = "if key \<in> set cp then AList.update key (''constant'', Scalar (of_int sd)) tm else tm"
  from Cons.prems x have k: "key \<in> fst ` set tm" by auto
  then have keys: "map fst ?tm = map fst tm"
    by (simp add: update_keys)
  then have "fst ` set ?tm = fst ` set tm"
    by (metis set_map)
  with Cons.prems have "fst ` set xs \<subseteq> fst ` set ?tm" by auto
  from Cons.IH [OF this] keys x show ?case by simp
qed

lemma force_constant_map_of:
  "map_of (force_constant cp sd xs tm) k
     = (if k \<in> fst ` set xs \<and> k \<in> set cp then Some (''constant'', Scalar (of_int sd))
        else map_of tm k)"
proof (induction xs arbitrary: tm)
  case Nil
  then show ?case by simp
next
  case (Cons x xs)
  obtain key val where x: "x = (key, val)" by (cases x)
  show ?case
    by (auto simp: x Cons.IH update_conv')
qed

lemma force_constant_forced:
  assumes "map fst tm = map fst ori" and "distinct (map fst ori)"
    and "tm' = force_constant (butlast (map fst ori)) sd ori tm"
  shows "map fst tm' = map fst ori
       \<and> (\<forall>p \<in> set (butlast tm'). snd p = (''constant'', Scalar (of_int sd)))"
proof -
  have "fst ` set ori \<subseteq> fst ` set tm"
    using assms(1) by (metis set_map subset_refl)
  from force_constant_keys [OF this] assms(1,3)
  have keys: "map fst tm' = map fst ori" by simp
  have "snd p = (''constant'', Scalar (of_int sd))" if p: "p \<in> set (butlast tm')" for p
  proof -
    from p have "fst p \<in> set (map fst (butlast tm'))" by simp
    then have k: "fst p \<in> set (butlast (map fst ori))"
      by (simp add: map_butlast keys)
    then have k': "fst p \<in> fst ` set ori"
      by (metis in_set_butlastD set_map)
    from p have "p \<in> set tm'" by (rule in_set_butlastD)
    then have "(fst p, snd p) \<in> set tm'" by simp
    with keys assms(2) have "map_of tm' (fst p) = Some (snd p)"
      by (metis map_of_is_SomeI)
    with k k' assms(3) show ?thesis
      by (simp add: force_constant_map_of)
  qed
  with keys show ?thesis by blast
qed

lemma set_phase_static:
  assumes "set_phase w s = Some s'"
  shows "env s' = env s \<and> ori_periods s' = ori_periods s \<and> short_dur s' = short_dur s
       \<and> short s' = short s \<and> variable s' = variable s"
  using assms
  by (auto simp: set_phase_def Let_def bind_eq_Some_conv split: if_splits)

lemma new_trial_reset_static:
  assumes "new_trial_reset w s = Some s'"
  shows "env_timing (env s') = env_timing (env s) \<and> ori_periods s' = ori_periods s
       \<and> short_dur s' = short_dur s \<and> short s' = short s
       \<and> change_periods s' = butlast (map fst (ori_periods s))"
proof -
  from assms obtain s1 n where 1: "set_phase w s = Some s1"
    and 2: "s' = s1\<lparr>first_choice := True, performance := 0,
                 change_periods := butlast (map fst (ori_periods s1)),
                 env := (env s1)\<lparr>env_performance := Some 0, env_t := Some 0, env_t_ind := Some 0,
                          env_num_tr := Some (n + 1)\<rparr>\<rparr>"
    by (auto simp: new_trial_reset_def Let_def bind_eq_Some_conv)
  from set_phase_static [OF 1] 2 show ?thesis by simp
qed

lemma new_trial_timing_static:
  assumes "new_trial_timing w s = Some s'"
  shows "ori_periods s' = ori_periods s \<and> short_dur s' = short_dur s"
  using assms
  by (auto simp: new_trial_timing_def Let_def bind_eq_Some_conv split: if_splits prod.splits)

lemma new_trial_timing_low:
  assumes "new_trial_timing w s = Some s'" and "curr_ph s < 2"
    and "change_periods s = butlast (map fst (ori_periods s))"
    and "timing_inv s"
  shows "short s' \<and> forced_short s' \<and> env_sigma_dt (env s') = Some (PyNum 0)"
proof -
  from assms(4,2) obtain tm where tm: "env_timing (env s) = Some tm"
      and keys: "map fst tm = map fst (ori_periods s)"
      and d: "distinct (map fst (ori_periods s))"
      and f: "short s \<longrightarrow> forced_short s"
    by (auto simp: timing_inv_def split: option.splits)
  show ?thesis
  proof (cases "short s")
    case True
    with assms(1,2) tm have "s' = s\<lparr>env := build_timing_fns tm ((env s)\<lparr>env_sigma_dt := Some (PyNum 0)\<rparr>)\<rparr>"
      by (simp add: new_trial_timing_def Let_def)
    with True f tm show ?thesis
      by (simp add: forced_short_def build_timing_fns_def)
  next
    case False
    define tm' where "tm' = force_constant (butlast (map fst (ori_periods s))) (short_dur s) (ori_periods s) tm"
    from False assms(1,2,3) tm
    have "s' = s\<lparr>short := True, variable := False,
                 env := build_timing_fns tm' ((env s)\<lparr>env_sigma_dt := Some (PyNum 0)\<rparr>)\<rparr>"
      by (simp add: new_trial_timing_def Let_def tm'_def)
    with force_constant_forced [OF keys d tm'_def] show ?thesis
      by (simp add: forced_short_def build_timing_fns_def)
  qed
qed

lemma forced_short_cong:
  "env_timing (env s') = env_timing (env s) \<Longrightarrow> ori_periods s' = ori_periods s \<Longrightarrow>
   short_dur s' = short_dur s \<Longrightarrow> forced_short s' = forced_short s"
  by (simp add: forced_short_def cong: option.case_cong)

lemma timing_inv_cong:
  "env_timing (env s') = env_timing (env s) \<Longrightarrow> ori_periods s' = ori_periods s \<Longrightarrow>
   short_dur s' = short_dur s \<Longrightarrow> short s' = short s \<Longrightarrow> curr_ph s' = curr_ph s \<Longrightarrow>
   timing_inv s' = timing_inv s"
  by (simp add: timing_inv_def forced_short_def cong: option.case_cong)

lemma new_trial_timing_inv:
  assumes nt: "new_trial w s = Some s'"
    and inv: "timing_inv s"
    and keep: "\<And>e. env_timing (env_new_trial w e) = env_timing e
                  \<and> env_sigma_dt (env_new_trial w e) = env_sigma_dt e"
  shows "timing_inv s'
       \<and> (curr_ph s' < 2 \<longrightarrow> short s' \<and> forced_short s' \<and> env_sigma_dt (env s') = Some (PyNum 0))"
proof -
  from nt obtain s1 s2 where 1: "new_trial_reset w s = Some s1"
    and 2: "new_trial_timing w s1 = Some s2" and 3: "s' = s2\<lparr>env := env_new_trial w (env s2)\<rparr>"
    by (auto simp: new_trial_def new_trial_pre_def bind_eq_Some_conv)
  note r = new_trial_reset_static [OF 1]
  note ph1 = new_trial_reset_curr_ph [OF 1]
  note ph2 = new_trial_timing_curr_ph [OF 2]
  note st2 = new_trial_timing_static [OF 2]
  have d: "distinct (map fst (ori_periods s'))"
    using inv r st2 3 by (simp add: timing_inv_def)
  show ?thesis
  proof (cases "curr_ph s' < 2")
    case False
    with d show ?thesis by (simp add: timing_inv_def)
  next
    case True
    with 3 ph2 have lt1: "curr_ph s1 < 2" by simp
    with ph1 have lt: "curr_ph s < 2" by simp
    have inv1: "timing_inv s1"
      using inv lt lt1 r by (simp add: timing_inv_def forced_short_def cong: option.case_cong)
    have cp: "change_periods s1 = butlast (map fst (ori_periods s1))"
      using r by simp
    from new_trial_timing_low [OF 2 lt1 cp inv1]
    have "short s2 \<and> forced_short s2 \<and> env_sigma_dt (env s2) = Some (PyNum 0)" .
    moreover have "forced_short s' = forced_short s2"
      using 3 keep by (intro forced_short_cong) simp_all
    ultimately have *: "short s' \<and> forced_short s' \<and> env_sigma_dt (env s') = Some (PyNum 0)"
      using 3 keep by simp
    with d True show ?thesis
      by (auto simp: timing_inv_def forced_short_def split: option.splits)
  qed
qed

lemma shape_boundary_static:
  assumes "shape_boundary a r i s = Some (r', i', s')"
  shows "env s' = env s \<and> ori_periods s' = ori_periods s \<and> short_dur s' = short_dur s
       \<and> short s' = short s \<and> curr_ph s' = curr_ph s"
  using assms
  by (auto simp: shape_boundary_def count_def Let_def bind_eq_Some_conv
           split: if_splits prod.splits)

lemma new_trial_static:
  assumes "new_trial w s = Some s'"
  shows "ori_periods s' = ori_periods s \<and> short_dur s' = short_dur s"
proof -
  from assms obtain s1 s2 where 1: "new_trial_reset w s = Some s1"
    and 2: "new_trial_timing w s1 = Some s2" and 3: "s' = s2\<lparr>env := env_new_trial w (env s2)\<rparr>"
    by (auto simp: new_trial_def new_trial_pre_def bind_eq_Some_conv)
  from new_trial_reset_static [OF 1] new_trial_timing_static [OF 2] 3 show ?thesis by simp
qed

lemma step_timing_inv:
  assumes st: "step w a s = Some (res, s')"
    and inv: "timing_inv s"
    and keep_step: "\<And>a e. env_timing (snd (env__step w a e)) = env_timing e"
    and keep: "\<And>e. env_timing (env_new_trial w e) = env_timing e
                  \<and> env_sigma_dt (env_new_trial w e) = env_sigma_dt e"
  shows "timing_inv s'
       \<and> (info_new_trial (info_of res) \<and> curr_ph s' < 2 \<longrightarrow>
            short s' \<and> forced_short s' \<and> env_sigma_dt (env s') = Some (PyNum 0))"
proof (cases "curr_ph s < 2")
  case True
  obtain ob0 r0 dn0 i0 e0 where b: "env__step w a (env s) = ((ob0, r0, dn0, i0), e0)"
    by (metis prod_cases4 surj_pair)
  obtain ob r dn i where res: "res = (ob, r, dn, i)"
    by (metis prod_cases4)
  from True b st [unfolded res] obtain tv d k r1 i1 s1 s2 i2 where
      s1: "s1 = s\<lparr>env := e0\<lparr>env_t := Some (tv + d), env_t_ind := Some (k + 1)\<rparr>\<rparr>"
      and sb: "(if info_new_trial i0 then shape_boundary a (max r0 0) i0 s1
            else Some (max r0 0, i0, s1)) = Some (r1, i1, s2)"
      and nt: "info_new_trial i2 \<longrightarrow> new_trial w s2 = Some s'"
      and ni: "info_new_trial i2 \<longrightarrow> i = i2\<lparr>info_performance := Some (performance s2)\<rparr>"
      and no: "\<not> info_new_trial i2 \<longrightarrow> s' = s2 \<and> i = i2"
    by (rule step_shapedE)
  from keep_step [of a "env s"] b have "env_timing e0 = env_timing (env s)" by simp
  then have "timing_inv s1 = timing_inv s"
    by (intro timing_inv_cong) (simp_all add: s1)
  with inv have "timing_inv s1" by simp
  moreover from sb have "env s2 = env s1 \<and> ori_periods s2 = ori_periods s1
       \<and> short_dur s2 = short_dur s1 \<and> short s2 = short s1 \<and> curr_ph s2 = curr_ph s1"
    by (auto split: if_splits dest: shape_boundary_static)
  then have "timing_inv s2 = timing_inv s1"
    by (intro timing_inv_cong) simp_all
  ultimately have inv2: "timing_inv s2" by simp
  show ?thesis
  proof (cases "info_new_trial i2")
    case True
    with nt have "new_trial w s2 = Some s'" by simp
    from new_trial_timing_inv [OF this inv2 keep] show ?thesis by simp
  next
    case False
    with no inv2 show ?thesis by (simp add: res info_of_def)
  qed
next
  case False
  with step_curr_ph [OF st] have ge: "\<not> curr_ph s' < 2" by simp
  obtain ob0 r0 dn0 i0 e0 where b: "env_step w a (env s) = ((ob0, r0, dn0, i0), e0)"
    by (metis prod_cases4 surj_pair)
  from st False b have "ori_periods s' = ori_periods s"
    by (auto simp: step_def Let_def bind_eq_Some_conv split: if_splits dest!: new_trial_static)
  with inv ge show ?thesis
    by (simp add: timing_inv_def)
qed

lemma run_calls_timing_inv:
  assumes keep_step: "\<And>a e. env_timing (snd (env__step w a e)) = env_timing e"
    and keep: "\<And>e. env_timing (env_new_trial w e) = env_timing e
                  \<and> env_sigma_dt (env_new_trial w e) = env_sigma_dt e"
  shows "run_calls w cs s = Some s' \<Longrightarrow> timing_inv s \<Longrightarrow> timing_inv s'"
proof (induction cs arbitrary: s)
  case Nil
  then show ?case by simp
next
  case (Cons c cs)
  then obtain s1 where 1: "run_call w c s = Some s1" and 2: "run_calls w cs s1 = Some s'"
    by (auto simp: bind_eq_Some_conv)
  have "timing_inv s1"
  proof (cases c)
    case (Step a)
    with 1 obtain res where "step w a s = Some (res, s1)" by auto
    from step_timing_inv [OF this Cons.prems(2) keep_step keep] show ?thesis by simp
  next
    case NewTrial
    with 1 have "new_trial w s = Some s1" by simp
    from new_trial_timing_inv [OF this Cons.prems(2) keep] show ?thesis by simp
  qed
  from Cons.IH [OF 2 this] show ?case .
qed

lemma Shaping_init_timing_inv:
  assumes "Shaping_init w e init_ph max_reps short_d th perf_w = Some s"
    and "env_timing e = Some tm" and "distinct (map fst tm)"
  shows "timing_inv s"
  using assms
  by (auto simp: Shaping_init_def timing_inv_def bind_eq_Some_conv split: if_splits)


text \<open>
  C8. After any \<open>new_trial\<close> that leaves the controller in phase 0 or 1, called directly or
  from \<open>step\<close> at a trial boundary, every period of the active timing except the last equals
  \<open>('constant', short_dur)\<close> and the \<open>sigma_dt\<close> of the wrapped environment is 0. The phase
  meant is the one \<open>new_trial\<close> installs the timing for, after its own call of \<open>set_phase\<close>.
  The controller is any state reached from construction by calls of \<open>step\<close> and \<open>new_trial\<close>;
  the methods \<open>_step\<close> and \<open>new_trial\<close> of the wrapped environment are taken not to assign
  \<open>timing\<close>, and its \<open>new_trial\<close> not to assign \<open>sigma_dt\<close>.
\<close>

theorem forced_short_after_new_trial:
  assumes "Shaping_init w e init_ph max_reps short_d th perf_w = Some s0"
    and "env_timing e = Some tm0" and "distinct (map fst tm0)"
    and "\<And>a e. env_timing (snd (env__step w a e)) = env_timing e"
    and "\<And>e. env_timing (env_new_trial w e) = env_timing e
             \<and> env_sigma_dt (env_new_trial w e) = env_sigma_dt e"
    and "run_calls w cs s0 = Some s"
    and "new_trial w s = Some s'
         \<or> (\<exists>res. step w a s = Some (res, s') \<and> info_new_trial (info_of res))"
    and "curr_ph s' < 2"
  shows "forced_short s' \<and> env_sigma_dt (env s') = Some (PyNum 0)"
proof -
  have inv: "timing_inv s"
    using run_calls_timing_inv [OF assms(4,5,6) Shaping_init_timing_inv [OF assms(1,2,3)]] .
  from assms(7) show ?thesis
  proof
    assume "new_trial w s = Some s'"
    from new_trial_timing_inv [OF this inv assms(5)] assms(8) show ?thesis by simp
  next
    assume "\<exists>res. step w a s = Some (res, s') \<and> info_new_trial (info_of res)"
    then obtain res where st: "step w a s = Some (res, s')" and nt: "info_new_trial (info_of res)"
      by blast
    from step_timing_inv [OF st inv assms(4,5)] nt assms(8) show ?thesis by simp
  qed
qed

theorem forced_short_after_new_trial_witness:
  "Shaping_init scripted (scripted_env []) 0 3 2 (4 / 5) 1000 = Some (start 0 1000 [])
   \<and> env_timing (scripted_env [])
     = Some [(''fixation'', (''constant'', Scalar 500)),
             (''stimulus'', (''uniform'', Seq [600, 1200])),
             (''decision'', (''constant'', Scalar 300))]
   \<and> distinct (map fst [(''fixation'', (''constant'', Scalar 500)),
                          (''stimulus'', (''uniform'', Seq [600, 1200])),
                          (''decision'', (''constant'', Scalar 300))])
   \<and> (\<forall>a e. env_timing (snd (env__step scripted a e)) = env_timing e)
   \<and> (\<forall>e. env_timing (env_new_trial scripted e) = env_timing e
           \<and> env_sigma_dt (env_new_trial scripted e) = env_sigma_dt e)
   \<and> run_calls scripted [Step 1] (start 0 1000 [])
     = Some (the (run_calls scripted [Step 1] (start 0 1000 [])))
   \<and> new_trial scripted (the (run_calls scripted [Step 1] (start 0 1000 [])))
     = Some (the (run_calls scripted [Step 1, NewTrial] (start 0 1000 [])))
   \<and> curr_ph (the (run_calls scripted [Step 1, NewTrial] (start 0 1000 []))) < 2
   \<and> forced_short (the (run_calls scripted [Step 1, NewTrial] (start 0 1000 [])))
   \<and> env_sigma_dt (env (the (run_calls scripted [Step 1, NewTrial] (start 0 1000 []))))
     = Some (PyNum 0)
   \<and> env_timing (env (the (run_calls scripted [Step 1, NewTrial] (start 0 1000 []))))
     = Some [(''fixation'', (''constant'', Scalar 200)),
             (''stimulus'', (''constant'', Scalar 200)),
             (''decision'', (''constant'', Scalar 300))]"
proof -
  have a: "Shaping_init scripted (scripted_env []) 0 3 2 (4 / 5) 1000 = Some (start 0 1000 [])"
    by code_simp
  have b: "env_timing (scripted_env [])
           = Some [(''fixation'', (''constant'', Scalar 500)),
                   (''stimulus'', (''uniform'', Seq [600, 1200])),
                   (''decision'', (''constant'', Scalar 300))]"
    by (simp add: scripted_env_def)
  have c: "distinct (map fst [(''fixation'', (''constant'', Scalar 500)),
                              (''stimulus'', (''uniform'', Seq [600, 1200])),
                              (''decision'', (''constant'', Scalar 300))])"
    by simp
  have d: "env_timing (snd (env__step scripted a e)) = env_timing e" for a e
    by (simp add: scripted_def scripted__step_def split: list.splits prod.splits)
  have e: "env_timing (env_new_trial scripted e) = env_timing e
           \<and> env_sigma_dt (env_new_trial scripted e) = env_sigma_dt e" for e
    by (simp add: scripted_def)
  have f: "run_calls scripted [Step 1] (start 0 1000 [])
           = Some (the (run_calls scripted [Step 1] (start 0 1000 [])))"
    by code_simp
  have g: "new_trial scripted (the (run_calls scripted [Step 1] (start 0 1000 [])))
           = Some (the (run_calls scripted [Step 1, NewTrial] (start 0 1000 [])))"
    by code_simp
  have h: "curr_ph (the (run_calls scripted [Step 1, NewTrial] (start 0 1000 []))) < 2"
    by code_simp
  have i: "env_timing (env (the (run_calls scripted [Step 1, NewTrial] (start 0 1000 []))))
           = Some [(''fixation'', (''constant'', Scalar 200)),
                   (''stimulus'', (''constant'', Scalar 200)),
                   (''decision'', (''constant'', Scalar 300))]"
    by code_simp
  from forced_short_after_new_trial [OF a b c d e f disjI1 [OF g] h] a b c d e f g h i
  show ?thesis
    by simp
qed

subsection \<open>The short-but-variable timing of the phases 2 and 3\<close>

text \<open>
  Which periods the loop of the phases 2 and 3 rewrites, and with what: a period of
  \<open>change_periods\<close> whose original distribution is not \<open>'constant'\<close> gets each of its
  original parameters replaced by \<open>fl_quantize\<close> of it, with the first original parameter as
  the divisor of the factor; one whose distribution is \<open>'constant'\<close> gets
  \<open>('constant', short_dur)\<close>; every other period is left as it was. This holds whatever
  \<open>fl_quantize\<close> computes; the instance \<open>doubles\<close> computes it as line 106 does.
\<close>

lemma those_map_Some:
  "those (map f xs) = Some ys \<Longrightarrow> (\<forall>x \<in> set xs. f x = Some (g x)) \<Longrightarrow> ys = map g xs"
  by (induction xs arbitrary: ys) (auto split: option.splits)

lemma scaled_args_Some:
  assumes "scaled_args w sd e a = Some ys"
  shows "\<exists>a0 as d. a = Seq (a0 # as) \<and> a0 \<noteq> 0 \<and> env_dt e = Some d \<and> d \<noteq> 0
           \<and> ys = map (\<lambda>n. fl_quantize w n (of_int sd) a0 d) (a0 # as)"
proof -
  from assms obtain a0 as where a: "a = Seq (a0 # as)" and a0: "a0 \<noteq> 0"
    and th: "those (map (\<lambda>n. env_dt e \<bind> (\<lambda>d. if d = 0 then None
               else Some (fl_quantize w n (of_int sd) a0 d))) (a0 # as)) = Some ys"
    by (auto simp: scaled_args_def split: args.splits list.splits if_splits)
  from th obtain d where d: "env_dt e = Some d" "d \<noteq> 0"
    by (cases "env_dt e") (auto split: if_splits)
  from those_map_Some [OF th, of "\<lambda>n. fl_quantize w n (of_int sd) a0 d"] d
  have "ys = map (\<lambda>n. fl_quantize w n (of_int sd) a0 d) (a0 # as)"
    by simp
  with a a0 d show ?thesis by blast
qed

lemma shorten_variable_map_of:
  assumes "shorten_variable w cp sd e xs tm = Some tm'" and "distinct (map fst xs)"
  shows "map_of tm' k =
     (case map_of xs k of
        None \<Rightarrow> map_of tm k
      | Some (dname, a) \<Rightarrow>
          if k \<in> set cp then
            (if dname \<noteq> ''constant''
             then map_option (\<lambda>ys. (dname, Seq ys)) (scaled_args w sd e a)
             else Some (''constant'', Scalar (of_int sd)))
          else map_of tm k)"
  using assms
proof (induction xs arbitrary: tm)
  case Nil
  then show ?case by simp
next
  case (Cons x xs)
  obtain key dname a where x: "x = (key, (dname, a))" by (cases x) auto
  from Cons.prems(2) x have nk: "map_of xs key = None" and dx: "distinct (map fst xs)"
    by (auto simp: map_of_eq_None_iff)
  show ?case
  proof (cases "key \<in> set cp")
    case False
    with Cons.prems(1) x have "shorten_variable w cp sd e xs tm = Some tm'" by simp
    from Cons.IH [OF this dx] False x nk show ?thesis
      by (auto split: option.splits)
  next
    case True
    show ?thesis
    proof (cases "dname = ''constant''")
      case c: True
      with Cons.prems(1) x True
      have "shorten_variable w cp sd e xs (AList.update key (''constant'', Scalar (of_int sd)) tm) = Some tm'"
        by simp
      from Cons.IH [OF this dx] True c x nk show ?thesis
        by (auto simp: update_conv' split: option.splits)
    next
      case c: False
      with Cons.prems(1) x True obtain ys where ys: "scaled_args w sd e a = Some ys"
        and r: "shorten_variable w cp sd e xs (AList.update key (dname, Seq ys) tm) = Some tm'"
        by (auto simp: bind_eq_Some_conv)
      from Cons.IH [OF r dx] True c x nk ys show ?thesis
        by (auto simp: update_conv' split: option.splits)
    qed
  qed
qed

lemma shorten_variable_scaled:
  assumes "shorten_variable w cp sd e xs tm = Some tm'"
    and "(k, (dname, a)) \<in> set xs" and "k \<in> set cp" and "dname \<noteq> ''constant''"
  shows "scaled_args w sd e a \<noteq> None"
  using assms
proof (induction xs arbitrary: tm)
  case Nil
  then show ?case by simp
next
  case (Cons x xs)
  obtain key dn b where x: "x = (key, (dn, b))" by (cases x) auto
  show ?case
  proof (cases "x = (k, (dname, a))")
    case True
    with Cons.prems(1,3,4) x show ?thesis
      by (auto simp: bind_eq_Some_conv)
  next
    case False
    with Cons.prems(2) have m: "(k, (dname, a)) \<in> set xs" by simp
    from Cons.prems(1) x obtain tm1 where "shorten_variable w cp sd e xs tm1 = Some tm'"
      by (auto simp: bind_eq_Some_conv split: if_splits)
    from Cons.IH [OF this m Cons.prems(3,4)] show ?thesis .
  qed
qed

lemma new_trial_timing_variable:
  assumes nt: "new_trial_timing w s = Some s'"
    and ph: "2 \<le> curr_ph s" "curr_ph s < 4"
    and fl: "\<not> short s \<or> \<not> variable s"
    and d: "distinct (map fst (ori_periods s))"
    and k: "k \<in> set (change_periods s)"
    and m: "map_of (ori_periods s) k = Some (dname, a)"
  shows "\<exists>tm'. env_timing (env s') = Some tm'
     \<and> (if dname \<noteq> ''constant''
         then \<exists>a0 as dt. a = Seq (a0 # as) \<and> a0 \<noteq> 0 \<and> env_dt (env s) = Some dt \<and> dt \<noteq> 0
                \<and> map_of tm' k
                  = Some (dname, Seq (map (\<lambda>n. fl_quantize w n (of_int (short_dur s)) a0 dt)
                                         (a0 # as)))
         else map_of tm' k = Some (''constant'', Scalar (of_int (short_dur s))))"
proof -
  from nt ph fl obtain tm tm' where tm: "env_timing (env s) = Some tm"
    and sv: "shorten_variable w (change_periods s) (short_dur s) (env s) (ori_periods s) tm
             = Some tm'"
    and e': "env_timing (env s') = Some tm'"
    by (auto simp: new_trial_timing_def build_timing_fns_def Let_def bind_eq_Some_conv
             split: if_splits)
  from shorten_variable_map_of [OF sv d, of k] m k
  have mo: "map_of tm' k =
      (if dname \<noteq> ''constant''
       then map_option (\<lambda>ys. (dname, Seq ys)) (scaled_args w (short_dur s) (env s) a)
       else Some (''constant'', Scalar (of_int (short_dur s))))"
    by simp
  show ?thesis
  proof (cases "dname = ''constant''")
    case True
    with mo e' show ?thesis by simp
  next
    case False
    from m have "(k, (dname, a)) \<in> set (ori_periods s)" by (rule map_of_SomeD)
    from shorten_variable_scaled [OF sv this k False]
    obtain ys where ys: "scaled_args w (short_dur s) (env s) a = Some ys" by auto
    from scaled_args_Some [OF ys] obtain a0 as dt where
      "a = Seq (a0 # as)" "a0 \<noteq> 0" "env_dt (env s) = Some dt" "dt \<noteq> 0"
      "ys = map (\<lambda>n. fl_quantize w n (of_int (short_dur s)) a0 dt) (a0 # as)"
      by blast
    with mo ys False e' show ?thesis by auto
  qed
qed

text \<open>The computation of line 106 on doubles, one operation at a time, for the parameters
  4900 and 9800 with \<open>short_dur = 200\<close> and \<open>dt = 100\<close>.\<close>

lemma factor_200_4900: "fl_div 200 4900 = 5882252574524729 / 144115188075855872"
  by code_simp

lemma times_4900: "fl_mul 4900 (5882252574524729 / 144115188075855872) = 7036874417766399 / 35184372088832"
  by code_simp

lemma times_4900_over_dt: "fl_div (7036874417766399 / 35184372088832) 100 = 9007199254740991 / 4503599627370496"
  by code_simp

lemma trunc_below_2: "trunc (9007199254740991 / 4503599627370496) = 1"
  by code_simp

lemma one_dt: "fl_mul 1 100 = 100"
  by code_simp

lemma quantize_4900: "fl_quantize doubles 4900 200 4900 100 = 100"
  by (simp add: doubles_def factor_200_4900 times_4900 times_4900_over_dt trunc_below_2 one_dt)

lemma times_9800: "fl_mul 9800 (5882252574524729 / 144115188075855872) = 7036874417766399 / 17592186044416"
  by code_simp

lemma times_9800_over_dt: "fl_div (7036874417766399 / 17592186044416) 100 = 9007199254740991 / 2251799813685248"
  by code_simp

lemma trunc_below_4: "trunc (9007199254740991 / 2251799813685248) = 3"
  by code_simp

lemma three_dt: "fl_mul 3 100 = 300"
  by code_simp

lemma quantize_9800: "fl_quantize doubles 9800 200 4900 100 = 300"
  by (simp add: doubles_def factor_200_4900 times_9800 times_9800_over_dt trunc_below_4 three_dt)

lemma int_mul_2_100: "fl_int_mul doubles 2 100 = 200"
  by code_simp

lemma doubles_env: "base_init doubles e" "env_new_trial doubles e = e"
  by (simp_all add: doubles_def scripted_def)

text \<open>
  C7. Claimed: in the phases 2 and 3, after a trial transition, each original parameter of a
  period that is neither excluded nor constant is scaled by \<open>short_dur\<close> over the original first
  parameter and quantized to a multiple of \<open>dt\<close>, so that it equals
  \<open>round_to_multiple(original_param * short_dur/original_first_param, dt)\<close>. The code rewrites
  the right periods (lemma \<open>new_trial_timing_variable\<close>), but line 106 truncates a quotient
  of doubles: with \<open>dt = 100\<close>, \<open>short_dur = 200\<close> and the parameters 4900 and 9800 the scaled
  values are exactly 200 and 400, multiples of \<open>dt\<close> already, while \<open>4900*(200/4900)/100\<close> is
  the double just below 2 and \<open>9800*(200/4900)/100\<close> the double just below 4, so that the
  period installed has the parameters 100 and 300.
\<close>

theorem first_parameter_truncated_below_short_dur:
  "map_option (\<lambda>s. (short_dur s, env_dt (env s),
                     env_timing (env s) \<bind> (\<lambda>tm. map_of tm ''stimulus'')))
     (Shaping_init doubles long_stimulus_env 2 3 2 (4 / 5) 1000 \<bind> new_trial doubles)
     = Some (200, Some 100, Some (''uniform'', Seq [100, 300]))
   \<and> map (\<lambda>n. n * 200 / 4900) [4900, 9800] = [200, 400 :: rat]"
  by (simp add: Shaping_init_def new_trial_def new_trial_pre_def new_trial_reset_def
        new_trial_timing_def set_phase_def scaled_args_def build_timing_fns_def
        long_stimulus_env_def scripted_env_def Let_def
        quantize_4900 quantize_9800 int_mul_2_100 doubles_env)

end
